theory Spec2Isabelle
  imports Main
begin

chapter \<open>The model\<close>

text \<open>
  A model of the call graph editor's core: the normalisation of symbol names and of
  parameter signatures, the search for a stored symbol in a tree of document symbols
  and the navigation built on it, the acquisition of a call hierarchy and the
  generation of the graph from it, and the method library. Each section follows one
  group of functions of the source and keeps their names. Regular expressions are
  modelled by functions that compute their match; the text before each says which
  expression it is. Calls that leave the program (the language server, the hover
  provider, the digest, the clock) are parameters.
\<close>


section \<open>Strings\<close>

text \<open>
  A string is a list of characters, one per code unit of the source's strings; the
  characters of the model are the code units below 256. \<open>is_space\<close> is the class
  \<^verbatim>\<open>\s\<close> of the regular expressions on these code units, which is also what
  \<^verbatim>\<open>trim()\<close> strips; \<open>is_line_terminator\<close> is what \<^verbatim>\<open>.\<close> does not match;
  \<open>is_word\<close> is \<^verbatim>\<open>\w\<close>.
\<close>

definition is_space :: "char \<Rightarrow> bool" where
  "is_space c =
     (c = CHR 0x09 \<or> c = CHR 0x0A \<or> c = CHR 0x0B \<or> c = CHR 0x0C \<or> c = CHR 0x0D \<or>
      c = CHR 0x20 \<or> c = CHR 0xA0)"

definition is_line_terminator :: "char \<Rightarrow> bool" where
  "is_line_terminator c = (c = CHR 0x0A \<or> c = CHR 0x0D)"

definition is_upper :: "char \<Rightarrow> bool" where
  "is_upper c = (let n = (of_char c :: nat) in 65 \<le> n \<and> n \<le> 90)"

definition is_word :: "char \<Rightarrow> bool" where
  "is_word c =
     (let n = (of_char c :: nat)
      in (48 \<le> n \<and> n \<le> 57) \<or> (65 \<le> n \<and> n \<le> 90) \<or> n = 95 \<or> (97 \<le> n \<and> n \<le> 122))"

definition trim :: "string \<Rightarrow> string" where
  "trim s = rev (dropWhile is_space (rev (dropWhile is_space s)))"

text \<open>\<^verbatim>\<open>str.endsWith(s)\<close> and \<^verbatim>\<open>str.startsWith(s)\<close>.\<close>

definition endsWith :: "string \<Rightarrow> string \<Rightarrow> bool" where
  "endsWith str s = (length s \<le> length str \<and> drop (length str - length s) str = s)"

definition startsWith :: "string \<Rightarrow> string \<Rightarrow> bool" where
  "startsWith str s = (take (length s) str = s)"

text \<open>\<^verbatim>\<open>xs.join(sep)\<close>.\<close>

fun join :: "string \<Rightarrow> string list \<Rightarrow> string" where
  "join sep [] = []"
| "join sep [x] = x"
| "join sep (x # y # ys) = x @ sep @ join sep (y # ys)"


section \<open>Splitting a parameter list (CallGraphGenerator.splitParams)\<close>

text \<open>
  The loop of \<open>splitParams\<close> over the characters still to read, with its three
  variables \<open>result\<close>, \<open>current\<close> and \<open>depth\<close>; the empty list of characters is the
  code after the loop. The depth is a signed counter: a closing bracket with no opening
  one before it makes it negative.
\<close>

fun splitParams_loop :: "string \<Rightarrow> string list \<Rightarrow> string \<Rightarrow> int \<Rightarrow> string list" where
  "splitParams_loop [] result current depth =
     (if trim current \<noteq> [] then result @ [current] else result)"
| "splitParams_loop (char # rest) result current depth =
     (if char = CHR ''<'' \<or> char = CHR ''['' \<or> char = CHR ''{'' then
        splitParams_loop rest result (current @ [char]) (depth + 1)
      else if char = CHR ''>'' \<or> char = CHR '']'' \<or> char = CHR ''}'' then
        splitParams_loop rest result (current @ [char]) (depth - 1)
      else if char = CHR '','' \<and> depth = 0 then
        splitParams_loop rest (result @ [current]) [] depth
      else
        splitParams_loop rest result (current @ [char]) depth)"

definition splitParams :: "string \<Rightarrow> string list" where
  "splitParams paramsStr = splitParams_loop paramsStr [] [] 0"

text \<open>
  Nesting inside bracket pairs, as the documentation of \<open>splitParams\<close> means it
  (a comma inside \<^verbatim>\<open>Map<string, number>\<close> is nested, and is not to split). The
  pairs are \<^verbatim>\<open>< >\<close>, \<^verbatim>\<open>[ ]\<close> and \<^verbatim>\<open>{ }\<close>. Reading a string from the left,
  the open brackets are kept innermost first: an opening bracket is added, a closing
  bracket that closes the innermost open bracket removes it, and a closing bracket with
  no partner (none open, or the innermost of another kind) closes nothing. The nesting
  depth at the end of a string is the number of brackets left open.
\<close>

definition isOpening :: "char \<Rightarrow> bool" where
  "isOpening c = (c = CHR ''<'' \<or> c = CHR ''['' \<or> c = CHR ''{'')"

definition isClosing :: "char \<Rightarrow> bool" where
  "isClosing c = (c = CHR ''>'' \<or> c = CHR '']'' \<or> c = CHR ''}'')"

definition closes :: "char \<Rightarrow> string \<Rightarrow> bool" where
  "closes c opened =
     (case opened of
        [] \<Rightarrow> False
      | b # _ \<Rightarrow> (b = CHR ''<'' \<and> c = CHR ''>'') \<or> (b = CHR ''['' \<and> c = CHR '']'') \<or>
                 (b = CHR ''{'' \<and> c = CHR ''}''))"

definition bracketStep :: "string \<Rightarrow> char \<Rightarrow> string" where
  "bracketStep opened c =
     (if isOpening c then c # opened else if closes c opened then tl opened else opened)"

fun openBrackets :: "string \<Rightarrow> string \<Rightarrow> string" where
  "openBrackets opened [] = opened"
| "openBrackets opened (c # cs) = openBrackets (bracketStep opened c) cs"

definition nestingDepth :: "string \<Rightarrow> nat" where
  "nestingDepth s = length (openBrackets [] s)"

text \<open>
  A string is paired when each of its closing brackets has its partner: it closes the
  innermost bracket open where it stands.
\<close>

fun paired :: "string \<Rightarrow> string \<Rightarrow> bool" where
  "paired opened [] = True"
| "paired opened (c # cs) =
     ((isClosing c \<longrightarrow> closes c opened) \<and> paired (bracketStep opened c) cs)"

section \<open>Symbol names (services/methodLibrary.ts, normalizeSymbolName)\<close>

text \<open>
  The regular expression of \<open>normalizeSymbolName\<close> is
  \<^verbatim>\<open>/^([^(]+)\(([^)]*)\)\s*(?::\s*.*)?$/\<close>.
  \<open>namePattern s p q\<close> says that it matches the whole of \<open>s\<close> with \<open>p\<close> as its first group
  and \<open>q\<close> as its second: a nonempty \<open>p\<close> with no \<^verbatim>\<open>(\<close>, the \<^verbatim>\<open>(\<close>, a \<open>q\<close> with no
  \<^verbatim>\<open>)\<close>, the \<^verbatim>\<open>)\<close>, white space, and then either nothing or a colon, white space
  and characters other than line terminators up to the end.
\<close>

definition namePattern :: "string \<Rightarrow> string \<Rightarrow> string \<Rightarrow> bool" where
  "namePattern s p q =
     (p \<noteq> [] \<and> CHR ''('' \<notin> set p \<and> CHR '')'' \<notin> set q \<and>
      (\<exists>w t. s = p @ ''('' @ q @ '')'' @ w @ t \<and> (\<forall>c\<in>set w. is_space c) \<and>
         (t = [] \<or>
          (\<exists>w' r. t = '':'' @ w' @ r \<and> (\<forall>c\<in>set w'. is_space c) \<and>
             (\<forall>c\<in>set r. \<not> is_line_terminator c)))))"

text \<open>
  \<open>matchName\<close> computes the match: the groups are fixed by the first \<^verbatim>\<open>(\<close> and
  the first \<^verbatim>\<open>)\<close> after it, and the greedy white space is followed by the end or by
  the colon. \<open>None\<close> is a failed match (\<open>null\<close>).
\<close>

definition matchName :: "string \<Rightarrow> (string \<times> string) option" where
  "matchName s =
     (let p = takeWhile (\<lambda>c. c \<noteq> CHR ''('') s;
          afterP = dropWhile (\<lambda>c. c \<noteq> CHR ''('') s
      in if p = [] \<or> afterP = [] then None
         else
           let q = takeWhile (\<lambda>c. c \<noteq> CHR '')'') (tl afterP);
               afterQ = dropWhile (\<lambda>c. c \<noteq> CHR '')'') (tl afterP)
           in if afterQ = [] then None
              else
                (case dropWhile is_space (tl afterQ) of
                   [] \<Rightarrow> Some (p, q)
                 | c # r \<Rightarrow>
                     if c = CHR '':'' \<and> \<not> list_ex is_line_terminator (dropWhile is_space r)
                     then Some (p, q) else None))"

record NormalizedName =
  bareName :: string
  signature :: "string option"

text \<open>
  \<open>rawDetail\<close> is the optional second argument; \<^verbatim>\<open>rawDetail || undefined\<close> is absent
  for a missing and for an empty string.
\<close>

definition normalizeSymbolName :: "string \<Rightarrow> string option \<Rightarrow> NormalizedName" where
  "normalizeSymbolName rawName rawDetail =
     (case matchName rawName of
        Some (p, q) \<Rightarrow> \<lparr>bareName = trim p, signature = Some (''('' @ trim q @ '')'')\<rparr>
      | None \<Rightarrow>
          \<lparr>bareName = rawName,
           signature = (case rawDetail of
                          None \<Rightarrow> None
                        | Some d \<Rightarrow> if d = [] then None else Some d)\<rparr>)"


section \<open>Relocating a symbol (callGraphEditorReactFlow.ts, findSymbol)\<close>

text \<open>
  A \<open>DocumentSymbol\<close> of the editor: its name, the start of its selection range (line
  and character) and its children.
\<close>

datatype DocumentSymbol =
  DocumentSymbol (ds_name: string) (ds_line: nat) (ds_character: nat)
    (ds_children: "DocumentSymbol list")

text \<open>A string used as a condition (\<^verbatim>\<open>if (containerName)\<close>): present and not empty.\<close>

definition truthy :: "string option \<Rightarrow> bool" where
  "truthy x = (case x of None \<Rightarrow> False | Some s \<Rightarrow> s \<noteq> [])"

definition bareNameOf :: "string \<Rightarrow> string" where
  "bareNameOf name = bareName (normalizeSymbolName name None)"

definition qualifiedNames :: "string \<Rightarrow> string option \<Rightarrow> string list" where
  "qualifiedNames name containerName =
     (case containerName of
        None \<Rightarrow> []
      | Some c \<Rightarrow>
          if c = [] then []
          else [c @ ''.'' @ name, c @ '':'' @ name,
                c @ ''.'' @ bareNameOf name, c @ '':'' @ bareNameOf name])"

definition suffixes :: "string \<Rightarrow> string list" where
  "suffixes name = [''.'' @ name, '':'' @ name, ''.'' @ bareNameOf name, '':'' @ bareNameOf name]"

text \<open>
  The search among the children of the container: the exact name, then the bare name,
  then the line (when a line is stored).
\<close>

definition containerChild :: "string \<Rightarrow> nat option \<Rightarrow> DocumentSymbol list \<Rightarrow> DocumentSymbol option" where
  "containerChild name line children =
     (case find (\<lambda>c. ds_name c = name) children of
        Some exactChild \<Rightarrow> Some exactChild
      | None \<Rightarrow>
          (case find (\<lambda>c. bareNameOf (ds_name c) = bareNameOf name) children of
             Some bareChild \<Rightarrow> Some bareChild
           | None \<Rightarrow>
               (case line of
                  None \<Rightarrow> None
                | Some l \<Rightarrow> find (\<lambda>c. ds_line c = l) children)))"

text \<open>
  One pass of the loop body of \<open>findSymbol\<close> for one symbol, up to the recursion into
  its children: the result is what the body returns before it recurses, if it does.
\<close>

definition matchSymbol :: "string \<Rightarrow> string option \<Rightarrow> nat option \<Rightarrow> DocumentSymbol \<Rightarrow> DocumentSymbol option" where
  "matchSymbol name containerName line symbol =
     (let symbolBareName = bareNameOf (ds_name symbol);
          targetBareName = bareNameOf name;
          inContainer =
            (if truthy containerName \<and> Some (ds_name symbol) = containerName
             then containerChild name line (ds_children symbol) else None)
      in case inContainer of
           Some child \<Rightarrow> Some child
         | None \<Rightarrow>
             if truthy containerName \<and> ds_name symbol \<in> set (qualifiedNames name containerName)
             then Some symbol
             else if truthy containerName \<and> symbolBareName \<in> set (qualifiedNames name containerName)
                     \<and> symbolBareName \<noteq> ds_name symbol
             then Some symbol
             else if truthy containerName \<and>
                     list_ex (\<lambda>s. endsWith (ds_name symbol) s \<or> endsWith symbolBareName s) (suffixes name)
             then Some symbol
             else if ds_name symbol = name then Some symbol
             else if symbolBareName = targetBareName \<and> symbolBareName \<noteq> ds_name symbol
             then Some symbol
             else None)"

fun findSymbolByLine :: "DocumentSymbol list \<Rightarrow> nat \<Rightarrow> DocumentSymbol option" where
  "findSymbolByLine [] line = None"
| "findSymbolByLine (DocumentSymbol n l c children # rest) line =
     (if l = line then Some (DocumentSymbol n l c children)
      else (case findSymbolByLine children line of
              Some found \<Rightarrow> Some found
            | None \<Rightarrow> findSymbolByLine rest line))"

text \<open>
  \<open>findSymbol\<close> is the method, \<open>findSymbol_loop\<close> its \<^verbatim>\<open>for\<close> loop over the symbols
  still to visit. The fallback by line runs after the loop at depth zero only.
\<close>

fun findSymbol :: "DocumentSymbol list \<Rightarrow> string \<Rightarrow> string option \<Rightarrow> nat option \<Rightarrow> nat \<Rightarrow> DocumentSymbol option"
  and findSymbol_loop :: "DocumentSymbol list \<Rightarrow> string \<Rightarrow> string option \<Rightarrow> nat option \<Rightarrow> nat \<Rightarrow> DocumentSymbol option"
where
  "findSymbol symbols name containerName line depth =
     (case findSymbol_loop symbols name containerName line depth of
        Some found \<Rightarrow> Some found
      | None \<Rightarrow>
          (if depth = 0 then
             (case line of None \<Rightarrow> None | Some l \<Rightarrow> findSymbolByLine symbols l)
           else None))"
| "findSymbol_loop [] name containerName line depth = None"
| "findSymbol_loop (DocumentSymbol n l c children # rest) name containerName line depth =
     (case matchSymbol name containerName line (DocumentSymbol n l c children) of
        Some found \<Rightarrow> Some found
      | None \<Rightarrow>
          (case findSymbol children name containerName line (depth + 1) of
             Some found \<Rightarrow> Some found
           | None \<Rightarrow> findSymbol_loop rest name containerName line depth))"

text \<open>
  \<open>reaches name containerName line depth symbols symbol\<close>: the search over \<open>symbols\<close> at
  \<open>depth\<close> comes to \<open>symbol\<close>, that is, it has returned nothing before: the symbol is one
  of the list and the loop found nothing in the symbols before it, or it is reached
  inside the children of such a symbol that does not match itself.
\<close>

inductive reaches :: "string \<Rightarrow> string option \<Rightarrow> nat option \<Rightarrow> nat \<Rightarrow> DocumentSymbol list \<Rightarrow> DocumentSymbol \<Rightarrow> bool"
  for name :: string and containerName :: "string option" and line :: "nat option"
where
  reaches_here:
    "findSymbol_loop before name containerName line depth = None \<Longrightarrow>
     reaches name containerName line depth (before @ symbol # after) symbol"
| reaches_child:
    "findSymbol_loop before name containerName line depth = None \<Longrightarrow>
     matchSymbol name containerName line parent = None \<Longrightarrow>
     reaches name containerName line (depth + 1) (ds_children parent) symbol \<Longrightarrow>
     reaches name containerName line depth (before @ parent # after) symbol"


section \<open>Navigation (callGraphEditorReactFlow.ts, navigateToCode)\<close>

text \<open>
  The symbol stored with a node of the graph document, and what \<open>navigateToCode\<close>
  finds around it: whether a workspace folder is open, whether the document opens, the
  number of lines of the document, and the answer of the document symbol provider
  (\<open>None\<close> when it gives no symbol tree).
\<close>

record SymbolRef =
  sym_name :: string
  sym_uri :: string
  sym_containerName :: "string option"
  sym_line :: "nat option"
  sym_signature :: "string option"

record GraphNode =
  node_id :: string
  node_label :: string
  node_type :: "string option"
  node_symbol :: "SymbolRef option"

record NavEnv =
  hasWorkspaceFolder :: bool
  documentOpens :: bool
  lineCount :: nat
  documentSymbols :: "DocumentSymbol list option"

datatype FailReason = NoSymbol | NoWorkspace | FileNotFound | SymbolNotFound

datatype WebviewMessage =
  NavigationSuccess string
| NavigationFailed string FailReason

text \<open>
  What one call does: the message posted to the webview, the cursor position set in the
  editor (line and character), if any, and the message shown to the user, if any.
  Exceptions of the editor's own calls (the outer \<^verbatim>\<open>catch\<close>) are not part of the model.
\<close>

record NavOutcome =
  posted :: WebviewMessage
  selection :: "(nat \<times> nat) option"
  userMessage :: "string option"

definition navigateToCode :: "NavEnv \<Rightarrow> GraphNode \<Rightarrow> NavOutcome" where
  "navigateToCode env node =
     (case node_symbol node of
        None \<Rightarrow>
          \<lparr>posted = NavigationFailed (node_id node) NoSymbol, selection = None,
           userMessage = Some ''This node has no bound code symbol''\<rparr>
      | Some symbol \<Rightarrow>
          if \<not> hasWorkspaceFolder env then
            \<lparr>posted = NavigationFailed (node_id node) NoWorkspace, selection = None,
             userMessage = Some ''No open workspace''\<rparr>
          else if \<not> documentOpens env then
            \<lparr>posted = NavigationFailed (node_id node) FileNotFound, selection = None,
             userMessage = Some (''File does not exist: '' @ sym_uri symbol)\<rparr>
          else
            (case (case documentSymbols env of
                     Some symbols \<Rightarrow>
                       findSymbol symbols (sym_name symbol) (sym_containerName symbol)
                         (sym_line symbol) 0
                   | None \<Rightarrow> None) of
               Some targetSymbol \<Rightarrow>
                 \<lparr>posted = NavigationSuccess (node_id node),
                  selection = Some (ds_line targetSymbol, ds_character targetSymbol),
                  userMessage = None\<rparr>
             | None \<Rightarrow>
                 (case sym_line symbol of
                    Some line \<Rightarrow>
                      \<lparr>posted = NavigationSuccess (node_id node), selection = Some (line, 0),
                       userMessage = None\<rparr>
                  | None \<Rightarrow>
                      \<lparr>posted = NavigationFailed (node_id node) SymbolNotFound, selection = None,
                       userMessage = Some (''Symbol not found: '' @ sym_name symbol)\<rparr>)))"

text \<open>
  The webview's handling of the two messages: a failed navigation marks the node
  broken, a successful one turns a broken node back to normal. The status of a node is
  optional in the document.
\<close>

datatype NodeStatus = Normal | Broken

fun statusAfter :: "WebviewMessage \<Rightarrow> NodeStatus option \<Rightarrow> NodeStatus option" where
  "statusAfter (NavigationFailed nodeId reason) status = Some Broken"
| "statusAfter (NavigationSuccess nodeId) status =
     (if status = Some Broken then Some Normal else status)"


section \<open>Parameter styles (CallGraphGenerator.detectParamStyle, looksLikeType)\<close>

datatype ParamStyle = Colon | TypeBefore | TypeAfterGo | Php | Dynamic

text \<open>
  \<^verbatim>\<open>/\w\s*\??\s*:/.test(s)\<close>: somewhere in \<open>s\<close> a word character is followed by
  optional white space, an optional question mark, optional white space and a colon.
  \<open>colonAfter\<close> is the part after the word character.
\<close>

definition colonAfter :: "string \<Rightarrow> bool" where
  "colonAfter s =
     (case dropWhile is_space s of
        [] \<Rightarrow> False
      | c # r \<Rightarrow>
          if c = CHR '':'' then True
          else if c = CHR ''?'' then
            (case dropWhile is_space r of [] \<Rightarrow> False | d # _ \<Rightarrow> d = CHR '':'')
          else False)"

fun hasColonSignal :: "string \<Rightarrow> bool" where
  "hasColonSignal [] = False"
| "hasColonSignal (c # cs) = ((is_word c \<and> colonAfter cs) \<or> hasColonSignal cs)"

text \<open>
  \<^verbatim>\<open>s.replace(/\s*=\s*.*$/, '')\<close> removes the leftmost match, which runs to the end
  of the string. \<open>defaultClause s\<close> says that the expression matches at the start of
  \<open>s\<close>: white space, an equals sign, white space, and no line terminator after that.
\<close>

definition defaultClause :: "string \<Rightarrow> bool" where
  "defaultClause s =
     (case dropWhile is_space s of
        [] \<Rightarrow> False
      | c # r \<Rightarrow> c = CHR ''='' \<and> \<not> list_ex is_line_terminator (dropWhile is_space r))"

fun stripDefault :: "string \<Rightarrow> string" where
  "stripDefault [] = []"
| "stripDefault (c # cs) = (if defaultClause (c # cs) then [] else c # stripDefault cs)"

text \<open>
  \<^verbatim>\<open>s.split(/\s+/)\<close>: the pieces between the maximal runs of white space; a run at
  the start or at the end of the string leaves an empty piece there, and the empty
  string gives one empty piece.
\<close>

fun split_ws :: "string \<Rightarrow> string list" where
  "split_ws [] = [[]]"
| "split_ws (c # cs) =
     (if is_space c then
        (if cs \<noteq> [] \<and> is_space (hd cs) then split_ws cs else [] # split_ws cs)
      else
        (case split_ws cs of
           [] \<Rightarrow> [[c]]
         | p # ps \<Rightarrow> (c # p) # ps))"

definition typeKeywords :: "string list" where
  "typeKeywords =
     [''int'', ''float'', ''double'', ''long'', ''short'', ''byte'', ''char'', ''bool'', ''boolean'',
      ''string'', ''void'', ''unsigned'', ''signed'', ''const'',
      ''String'', ''Object'', ''List'', ''Map'', ''Set'', ''Array'', ''Dictionary'',
      ''Int32'', ''Int64'', ''Single'', ''Double'', ''Boolean'', ''Byte'',
      ''ArrayList'', ''HashMap'', ''HashSet'', ''LinkedList'', ''TreeMap'']"

definition looksLikeType :: "string \<Rightarrow> bool" where
  "looksLikeType token =
     (if token \<in> set typeKeywords then True
      else if token \<noteq> [] \<and> is_upper (hd token) then True
      else if endsWith token ''[]'' then True
      else if token \<noteq> [] \<and> (last token = CHR ''*'' \<or> last token = CHR ''&'') then True
      else False)"

text \<open>The loop of \<open>detectParamStyle\<close> over the parameters still to look at.\<close>

fun detectParamStyle :: "string list \<Rightarrow> ParamStyle" where
  "detectParamStyle [] = Dynamic"
| "detectParamStyle (param # rest) =
     (let trimmed = trim param in
      if trimmed = [] then detectParamStyle rest
      else if startsWith trimmed ''*'' \<or> startsWith trimmed ''...'' then detectParamStyle rest
      else if trimmed = ''self'' \<or> trimmed = ''cls'' \<or> trimmed = ''this'' then detectParamStyle rest
      else if CHR ''$'' \<in> set trimmed then Php
      else if hasColonSignal trimmed then Colon
      else
        (let cleanParam = stripDefault trimmed;
             tokens = filter (\<lambda>t. t \<noteq> []) (split_ws cleanParam)
         in if length tokens \<ge> 2 then
              (if looksLikeType (tokens ! 0) then TypeBefore else TypeAfterGo)
            else detectParamStyle rest))"

section \<open>Parameter types (extractTypeFromSingleParam, extractTypesFromParams)\<close>

text \<open>
  The group of \<^verbatim>\<open>\s*(.+)\<close> matched at the start of \<open>r\<close>, where nothing follows the
  group in the expression: after the white space, the characters up to the first line
  terminator. When \<open>r\<close> is white space only, the white space gives back its last
  character that is not a line terminator, and the group is that character.
\<close>

definition dotPlusCapture :: "string \<Rightarrow> string option" where
  "dotPlusCapture r =
     (let t = dropWhile is_space r
      in if t \<noteq> [] then Some (takeWhile (\<lambda>c. \<not> is_line_terminator c) t)
         else (case filter (\<lambda>c. \<not> is_line_terminator c) r of
                 [] \<Rightarrow> None
               | x # xs \<Rightarrow> Some [last (x # xs)]))"

text \<open>
  \<^verbatim>\<open>/^\*\*\w+\s*:\s*(.+)/\<close>, \<^verbatim>\<open>/^\*\w+\s*:\s*(.+)/\<close> and \<^verbatim>\<open>/^\.\.\.\w+\s*:\s*(.+)/\<close>
  on a parameter that starts with the marker, of length \<open>n\<close>: the group, if they match.
\<close>

definition variadicColon :: "nat \<Rightarrow> string \<Rightarrow> string option" where
  "variadicColon n param =
     (let rest = drop n param in
      if takeWhile is_word rest = [] then None
      else (case dropWhile is_space (dropWhile is_word rest) of
              [] \<Rightarrow> None
            | c # r \<Rightarrow> if c = CHR '':'' then dotPlusCapture r else None))"

text \<open>\<^verbatim>\<open>/^\w[\w?]*\s*\??\s*:\s*(.+)/\<close>: the group, if it matches.\<close>

definition colonMatch :: "string \<Rightarrow> string option" where
  "colonMatch param =
     (case param of
        [] \<Rightarrow> None
      | c # cs \<Rightarrow>
          if \<not> is_word c then None
          else
            (let r = dropWhile is_space (dropWhile (\<lambda>x. is_word x \<or> x = CHR ''?'') cs);
                 r' = (case r of
                         [] \<Rightarrow> r
                       | x # xs \<Rightarrow> if x = CHR ''?'' then dropWhile is_space xs else r)
             in case r' of
                  [] \<Rightarrow> None
                | x # rest \<Rightarrow> if x = CHR '':'' then dotPlusCapture rest else None))"

text \<open>\<^verbatim>\<open>/^(\??\w[\w\\]*)\s+\$/\<close>: the group, if it matches.\<close>

definition phpMatch :: "string \<Rightarrow> string option" where
  "phpMatch param =
     (let q = (if param \<noteq> [] \<and> hd param = CHR ''?'' then ''?'' else []);
          r0 = drop (length q) param
      in case r0 of
           [] \<Rightarrow> None
         | c # cs \<Rightarrow>
             if \<not> is_word c then None
             else
               (let body = takeWhile (\<lambda>x. is_word x \<or> x = CHR 0x5C) cs;
                    r1 = dropWhile (\<lambda>x. is_word x \<or> x = CHR 0x5C) cs
                in if takeWhile is_space r1 \<noteq> [] \<and>
                      (case dropWhile is_space r1 of [] \<Rightarrow> False | x # _ \<Rightarrow> x = CHR ''$'')
                   then Some (q @ c # body) else None))"

text \<open>\<^verbatim>\<open>/\$(\w+)/\<close>: the group of the leftmost match.\<close>

fun dollarName :: "string \<Rightarrow> string option" where
  "dollarName [] = None"
| "dollarName (c # cs) =
     (if c = CHR ''$'' \<and> takeWhile is_word cs \<noteq> [] then Some (takeWhile is_word cs)
      else dollarName cs)"

text \<open>\<^verbatim>\<open>s.includes(sub)\<close> (the name \<open>includes\<close> is taken).\<close>

fun str_includes :: "string \<Rightarrow> string \<Rightarrow> bool" where
  "str_includes [] sub = (sub = [])"
| "str_includes (c # cs) sub = (startsWith (c # cs) sub \<or> str_includes cs sub)"

text \<open>
  \<open>extractParamName\<close>: \<^verbatim>\<open>/^(\w+)\s*=/\<close> first, then \<^verbatim>\<open>/^(\w+)/\<close>, else the
  parameter as it is.
\<close>

definition extractParamName :: "string \<Rightarrow> string" where
  "extractParamName param =
     (let w = takeWhile is_word param in
      if w \<noteq> [] \<and>
         (case dropWhile is_space (dropWhile is_word param) of [] \<Rightarrow> False | c # _ \<Rightarrow> c = CHR ''='')
      then w
      else if w \<noteq> [] then w
      else param)"

definition extractTypeFromSingleParam :: "string \<Rightarrow> ParamStyle \<Rightarrow> string" where
  "extractTypeFromSingleParam param style =
     (if param = [] then []
      else if startsWith param ''**'' then
        (case variadicColon 2 param of Some t \<Rightarrow> ''**'' @ trim t | None \<Rightarrow> param)
      else if startsWith param ''*'' then
        (case variadicColon 1 param of Some t \<Rightarrow> ''*'' @ trim t | None \<Rightarrow> param)
      else if startsWith param ''...'' then
        (case variadicColon 3 param of Some t \<Rightarrow> ''...'' @ trim t | None \<Rightarrow> param)
      else if param = ''self'' \<or> param = ''cls'' \<or> param = ''this'' then []
      else
        (let isOptional = (str_includes param ''?:'' \<or> (str_includes param ''?'' \<and> style = Colon))
         in case style of
              Colon \<Rightarrow>
                (case colonMatch param of
                   Some t \<Rightarrow>
                     (let type0 = trim t;
                          type1 = (if CHR ''='' \<in> set type0
                                   then trim (takeWhile (\<lambda>c. c \<noteq> CHR ''='') type0) else type0)
                      in if isOptional then type1 @ ''?'' else type1)
                 | None \<Rightarrow> extractParamName param)
            | TypeBefore \<Rightarrow>
                (let cleanParam = trim (stripDefault param);
                     tokens = split_ws cleanParam
                 in if length tokens \<ge> 2 then join '' '' (butlast tokens) else param)
            | TypeAfterGo \<Rightarrow>
                (let tokens = split_ws (trim param)
                 in if length tokens \<ge> 2 then join '' '' (tl tokens) else param)
            | Php \<Rightarrow>
                (case phpMatch param of
                   Some t \<Rightarrow> t
                 | None \<Rightarrow> (case dollarName param of Some n \<Rightarrow> n | None \<Rightarrow> param))
            | Dynamic \<Rightarrow> extractParamName param))"

text \<open>
  \<open>extractTypesFromParams\<close>. \<open>mapTypes\<close> is its \<^verbatim>\<open>map\<close> followed by its
  \<^verbatim>\<open>filter\<close>; \<open>typesOfTokens\<close> is what it does with the tokens once the string is split.
\<close>

definition mapTypes :: "string list \<Rightarrow> ParamStyle \<Rightarrow> string list" where
  "mapTypes paramTokens style =
     filter (\<lambda>t. t \<noteq> []) (map (\<lambda>param. extractTypeFromSingleParam (trim param) style) paramTokens)"

definition typesOfTokens :: "string list \<Rightarrow> string" where
  "typesOfTokens paramTokens =
     (let style = detectParamStyle paramTokens;
          types = mapTypes paramTokens style
      in ''('' @ join '', '' types @ '')'')"

definition extractTypesFromParams :: "string \<Rightarrow> string" where
  "extractTypesFromParams paramsStr =
     (if trim paramsStr = [] then ''()'' else typesOfTokens (splitParams paramsStr))"

text \<open>A token that is exactly \<^verbatim>\<open>self\<close>, \<^verbatim>\<open>cls\<close> or \<^verbatim>\<open>this\<close> once trimmed.\<close>

definition isSelfToken :: "string \<Rightarrow> bool" where
  "isSelfToken param = (trim param = ''self'' \<or> trim param = ''cls'' \<or> trim param = ''this'')"

text \<open>
  The tokens \<open>detectParamStyle\<close> passes over as special parameters, and the signal one
  trimmed token gives, if it gives one: \<open>Php\<close> for a dollar sign, else \<open>Colon\<close> for
  the colon form, else, with the default value stripped, \<open>TypeBefore\<close> or \<open>TypeAfterGo\<close>
  when there are two pieces or more, by the look of the first piece. An empty token, a
  special parameter and a token of one piece give no signal.
\<close>

definition skippedToken :: "string \<Rightarrow> bool" where
  "skippedToken t =
     (startsWith t ''*'' \<or> startsWith t ''...'' \<or> t = ''self'' \<or> t = ''cls'' \<or> t = ''this'')"

definition tokenSignal :: "string \<Rightarrow> ParamStyle option" where
  "tokenSignal t =
     (if t = [] \<or> skippedToken t then None
      else if CHR ''$'' \<in> set t then Some Php
      else if hasColonSignal t then Some Colon
      else
        (let pieces = filter (\<lambda>p. p \<noteq> []) (split_ws (stripDefault t))
         in if length pieces \<ge> 2
            then Some (if looksLikeType (hd pieces) then TypeBefore else TypeAfterGo)
            else None))"


section \<open>Call hierarchy acquisition (LSPCallHierarchyProvider)\<close>

text \<open>
  A call hierarchy item of the editor: name, kind (the number of the editor's
  \<open>SymbolKind\<close>), the two forms of its URI, the start of its range and of its selection
  range (line and character), and its detail. A node of the acquired tree is an item
  with its callers and its callees.
\<close>

record Uri =
  fsPath :: string
  uriString :: string

record CallHierarchyItem =
  chi_name :: string
  chi_kind :: nat
  chi_uri :: Uri
  chi_rangeStart :: "nat \<times> nat"
  chi_detail :: "string option"
  chi_selectionStart :: "(nat \<times> nat) option"

datatype CallHierarchyNode =
  CallHierarchyNode (chn_item: CallHierarchyItem)
    (chn_callers: "CallHierarchyNode list") (chn_callees: "CallHierarchyNode list")

definition SymbolKind_Method :: nat where
  "SymbolKind_Method = 5"

text \<open>
  The language server behind the editor's three commands, for the document and the
  position of the request. \<open>None\<close> is an answer that is missing, or a command that
  throws (each caller catches it and goes on as for a missing answer).
\<close>

record Lsp =
  prepareCallHierarchy :: "CallHierarchyItem list option"
  provideIncomingCalls :: "CallHierarchyItem \<Rightarrow> CallHierarchyItem list option"
  provideOutgoingCalls :: "CallHierarchyItem \<Rightarrow> CallHierarchyItem list option"

text \<open>A number in a template string: its decimal digits.\<close>

fun showNat :: "nat \<Rightarrow> string" where
  "showNat n =
     (if n < 10 then [char_of (48 + n)] else showNat (n div 10) @ [char_of (48 + n mod 10)])"

text \<open>
  A \<^verbatim>\<open>Set<string>\<close> is the list of its elements in the order they were added;
  \<open>setAdd\<close> is \<^verbatim>\<open>add\<close>, membership in the list is \<^verbatim>\<open>has\<close>.
\<close>

definition setAdd :: "string \<Rightarrow> string list \<Rightarrow> string list" where
  "setAdd x xs = (if x \<in> set xs then xs else xs @ [x])"

definition getNodeKey :: "CallHierarchyItem \<Rightarrow> string" where
  "getNodeKey item =
     uriString (chi_uri item) @ '':'' @ showNat (fst (chi_rangeStart item)) @ '':'' @
     showNat (snd (chi_rangeStart item)) @ '':'' @ chi_name item"

text \<open>
  \<open>getIncomingCalls\<close> with the visited keys passed in and out; \<open>getIncomingCalls_loop\<close>
  is its loop over the calls still to look at. \<open>getOutgoingCalls\<close> is the same for the
  callees.
\<close>

function getIncomingCalls :: "Lsp \<Rightarrow> CallHierarchyItem \<Rightarrow> int \<Rightarrow> string list \<Rightarrow> CallHierarchyNode list \<times> string list"
  and getIncomingCalls_loop :: "Lsp \<Rightarrow> CallHierarchyItem list \<Rightarrow> int \<Rightarrow> string list \<Rightarrow> CallHierarchyNode list \<times> string list"
where
  "getIncomingCalls lsp item remainingDepth visited =
     (if remainingDepth < 0 then ([], visited)
      else (case provideIncomingCalls lsp item of
              None \<Rightarrow> ([], visited)
            | Some incomingCalls \<Rightarrow> getIncomingCalls_loop lsp incomingCalls remainingDepth visited))"
| "getIncomingCalls_loop lsp [] remainingDepth visited = ([], visited)"
| "getIncomingCalls_loop lsp (callerItem # rest) remainingDepth visited =
     (if getNodeKey callerItem \<in> set visited then
        getIncomingCalls_loop lsp rest remainingDepth visited
      else
        (case (if remainingDepth > 0
               then getIncomingCalls lsp callerItem (remainingDepth - 1)
                      (setAdd (getNodeKey callerItem) visited)
               else ([], setAdd (getNodeKey callerItem) visited)) of
           (callers, visited1) \<Rightarrow>
             (case getIncomingCalls_loop lsp rest remainingDepth visited1 of
                (others, visited2) \<Rightarrow>
                  (CallHierarchyNode callerItem callers [] # others, visited2))))"
  by pat_completeness auto
termination
  by (relation "measures
        [\<lambda>x. case x of Inl (lsp, item, d, v) \<Rightarrow> nat (d + 1) | Inr (lsp, calls, d, v) \<Rightarrow> nat (d + 1),
         \<lambda>x. case x of Inl _ \<Rightarrow> 1 | Inr _ \<Rightarrow> 0,
         \<lambda>x. case x of Inl _ \<Rightarrow> 0 | Inr (lsp, calls, d, v) \<Rightarrow> length calls]")
    auto

function getOutgoingCalls :: "Lsp \<Rightarrow> CallHierarchyItem \<Rightarrow> int \<Rightarrow> string list \<Rightarrow> CallHierarchyNode list \<times> string list"
  and getOutgoingCalls_loop :: "Lsp \<Rightarrow> CallHierarchyItem list \<Rightarrow> int \<Rightarrow> string list \<Rightarrow> CallHierarchyNode list \<times> string list"
where
  "getOutgoingCalls lsp item remainingDepth visited =
     (if remainingDepth < 0 then ([], visited)
      else (case provideOutgoingCalls lsp item of
              None \<Rightarrow> ([], visited)
            | Some outgoingCalls \<Rightarrow> getOutgoingCalls_loop lsp outgoingCalls remainingDepth visited))"
| "getOutgoingCalls_loop lsp [] remainingDepth visited = ([], visited)"
| "getOutgoingCalls_loop lsp (calleeItem # rest) remainingDepth visited =
     (if getNodeKey calleeItem \<in> set visited then
        getOutgoingCalls_loop lsp rest remainingDepth visited
      else
        (case (if remainingDepth > 0
               then getOutgoingCalls lsp calleeItem (remainingDepth - 1)
                      (setAdd (getNodeKey calleeItem) visited)
               else ([], setAdd (getNodeKey calleeItem) visited)) of
           (callees, visited1) \<Rightarrow>
             (case getOutgoingCalls_loop lsp rest remainingDepth visited1 of
                (others, visited2) \<Rightarrow>
                  (CallHierarchyNode calleeItem [] callees # others, visited2))))"
  by pat_completeness auto
termination
  by (relation "measures
        [\<lambda>x. case x of Inl (lsp, item, d, v) \<Rightarrow> nat (d + 1) | Inr (lsp, calls, d, v) \<Rightarrow> nat (d + 1),
         \<lambda>x. case x of Inl _ \<Rightarrow> 1 | Inr _ \<Rightarrow> 0,
         \<lambda>x. case x of Inl _ \<Rightarrow> 0 | Inr (lsp, calls, d, v) \<Rightarrow> length calls]")
    auto

text \<open>
  \<open>getCallHierarchy\<close> starts from an empty set of visited keys, takes the first item
  prepared by the server as the root and marks it visited; the callers are acquired
  first, and the callees with the keys the callers have left.
\<close>

definition getCallHierarchy :: "Lsp \<Rightarrow> int \<Rightarrow> CallHierarchyNode option" where
  "getCallHierarchy lsp depth =
     (case prepareCallHierarchy lsp of
        None \<Rightarrow> None
      | Some [] \<Rightarrow> None
      | Some (rootItem # _) \<Rightarrow>
          (let visited0 = setAdd (getNodeKey rootItem) [] in
           if depth > 0 then
             (case getIncomingCalls lsp rootItem (depth - 1) visited0 of
                (callers, visited1) \<Rightarrow>
                  (case getOutgoingCalls lsp rootItem (depth - 1) visited1 of
                     (callees, visited2) \<Rightarrow> Some (CallHierarchyNode rootItem callers callees)))
           else Some (CallHierarchyNode rootItem [] [])))"

section \<open>Graph generation (CallGraphGenerator)\<close>

text \<open>
  What the generator takes from outside: whether a workspace is open, the relative
  path \<open>WorkspacePathResolver.toWorkspaceRelative\<close> gives for a file path, the MD5
  digest in hexadecimal, the language server, and the signature
  \<open>getSignatureFromHover\<close> returns for an item (the texts of the hover provider at the
  item's selection start, passed through \<open>extractSignatureFromHover\<close> and
  \<open>extractTypesFromParams\<close>; only the node's \<open>signature\<close> field depends on it).
\<close>

record GenEnv =
  hasWorkspace :: bool
  relativePath :: "string \<Rightarrow> string"
  md5hex :: "string \<Rightarrow> string"
  hoverSignature :: "CallHierarchyItem \<Rightarrow> string option"
  lsp :: Lsp

record Edge =
  edge_from :: string
  edge_to :: string

text \<open>
  The state of a generator: \<open>nodeMap\<close> (a \<^verbatim>\<open>Map\<close>, as the list of its entries in the
  order the keys were first set), \<open>edges\<close> and \<open>visitedNodes\<close>.
\<close>

record GenState =
  nodeMap :: "(string \<times> GraphNode) list"
  edges :: "Edge list"
  visitedNodes :: "string list"

fun mapSet :: "string \<Rightarrow> 'v \<Rightarrow> (string \<times> 'v) list \<Rightarrow> (string \<times> 'v) list" where
  "mapSet k v [] = [(k, v)]"
| "mapSet k v ((k', v') # rest) = (if k' = k then (k, v) # rest else (k', v') # mapSet k v rest)"

definition generateNodeId :: "GenEnv \<Rightarrow> CallHierarchyItem \<Rightarrow> string" where
  "generateNodeId env item =
     take 16 (md5hex env
       (relativePath env (fsPath (chi_uri item)) @ '':'' @ showNat (fst (chi_rangeStart item)) @
        '':'' @ showNat (snd (chi_rangeStart item)) @ '':'' @ chi_name item))"

text \<open>\<^verbatim>\<open>x || undefined\<close> for an optional string.\<close>

definition orUndefined :: "string option \<Rightarrow> string option" where
  "orUndefined x = (if truthy x then x else None)"

definition createNodeFromCallHierarchyItem :: "GenEnv \<Rightarrow> CallHierarchyItem \<Rightarrow> GraphNode" where
  "createNodeFromCallHierarchyItem env item =
     (let isMethod = (chi_kind item = SymbolKind_Method);
          containerName = (if isMethod then chi_detail item else None);
          selectionStart = (case chi_selectionStart item of
                              Some start \<Rightarrow> start
                            | None \<Rightarrow> chi_rangeStart item);
          normalized = normalizeSymbolName (chi_name item) None;
          hover = hoverSignature env item;
          sig = (if truthy hover then hover else signature normalized)
      in \<lparr>node_id = generateNodeId env item,
          node_label = bareName normalized,
          node_type = Some ''code'',
          node_symbol = Some
            \<lparr>sym_name = bareName normalized,
             sym_uri = relativePath env (fsPath (chi_uri item)),
             sym_containerName = orUndefined containerName,
             sym_line = Some (fst selectionStart),
             sym_signature = orUndefined sig\<rparr>\<rparr>)"

text \<open>
  \<open>processCallers\<close> and \<open>processCallees\<close>, each with the loop over the callers (callees)
  still to process; the state of the generator is passed in and out.
\<close>

fun processCallers :: "GenEnv \<Rightarrow> CallHierarchyNode \<Rightarrow> string \<Rightarrow> nat \<Rightarrow> GenState \<Rightarrow> GenState"
  and processCallers_loop :: "GenEnv \<Rightarrow> CallHierarchyNode list \<Rightarrow> string \<Rightarrow> nat \<Rightarrow> GenState \<Rightarrow> GenState"
where
  "processCallers env (CallHierarchyNode item callers callees) parentId level st =
     processCallers_loop env callers parentId level st"
| "processCallers_loop env [] parentId level st = st"
| "processCallers_loop env (caller # rest) parentId level st =
     (let callerId = generateNodeId env (chn_item caller) in
      if callerId \<notin> set (visitedNodes st) then
        (let st1 = st\<lparr>visitedNodes := setAdd callerId (visitedNodes st)\<rparr>;
             callerNode = createNodeFromCallHierarchyItem env (chn_item caller);
             st2 = st1\<lparr>nodeMap := mapSet (node_id callerNode) callerNode (nodeMap st1)\<rparr>;
             st3 = st2\<lparr>edges := edges st2 @ [\<lparr>edge_from = callerId, edge_to = parentId\<rparr>]\<rparr>;
             st4 = processCallers env caller callerId (level + 1) st3
         in processCallers_loop env rest parentId level st4)
      else processCallers_loop env rest parentId level st)"

fun processCallees :: "GenEnv \<Rightarrow> CallHierarchyNode \<Rightarrow> string \<Rightarrow> nat \<Rightarrow> GenState \<Rightarrow> GenState"
  and processCallees_loop :: "GenEnv \<Rightarrow> CallHierarchyNode list \<Rightarrow> string \<Rightarrow> nat \<Rightarrow> GenState \<Rightarrow> GenState"
where
  "processCallees env (CallHierarchyNode item callers callees) parentId level st =
     processCallees_loop env callees parentId level st"
| "processCallees_loop env [] parentId level st = st"
| "processCallees_loop env (callee # rest) parentId level st =
     (let calleeId = generateNodeId env (chn_item callee) in
      if calleeId \<notin> set (visitedNodes st) then
        (let st1 = st\<lparr>visitedNodes := setAdd calleeId (visitedNodes st)\<rparr>;
             calleeNode = createNodeFromCallHierarchyItem env (chn_item callee);
             st2 = st1\<lparr>nodeMap := mapSet (node_id calleeNode) calleeNode (nodeMap st1)\<rparr>;
             st3 = st2\<lparr>edges := edges st2 @ [\<lparr>edge_from = parentId, edge_to = calleeId\<rparr>]\<rparr>;
             st4 = processCallees env callee calleeId (level + 1) st3
         in processCallees_loop env rest parentId level st4)
      else processCallees_loop env rest parentId level st)"

datatype Direction = Both | Callers | Callees

definition convertToGraphData :: "GenEnv \<Rightarrow> CallHierarchyNode \<Rightarrow> Direction \<Rightarrow> GenState \<Rightarrow> GraphNode list \<times> GenState" where
  "convertToGraphData env hierarchy direction st =
     (let rootNode = createNodeFromCallHierarchyItem env (chn_item hierarchy);
          st1 = st\<lparr>nodeMap := mapSet (node_id rootNode) rootNode (nodeMap st)\<rparr>;
          st2 = (if direction = Both \<or> direction = Callers
                 then processCallers env hierarchy (node_id rootNode) 1 st1 else st1);
          st3 = (if direction = Both \<or> direction = Callees
                 then processCallees env hierarchy (node_id rootNode) 1 st2 else st2)
      in (map snd (nodeMap st3), st3))"

record GenerateOptions =
  opt_depth :: "int option"
  opt_direction :: "Direction option"

record CallGraphDocument =
  doc_title :: string
  doc_nodes :: "GraphNode list"
  doc_edges :: "Edge list"

datatype GenError = WorkspaceNotOpened | UnableToGetCallHierarchy

text \<open>
  \<open>generateFromCodePosition\<close>: the error thrown or the document returned, and the state
  of the generator afterwards. \<open>applyLayout\<close> fills groups of its own that it
  discards and changes neither the nodes nor the edges; it is left out.
\<close>

definition generateFromCodePosition :: "GenEnv \<Rightarrow> GenerateOptions \<Rightarrow> GenState \<Rightarrow> (GenError + CallGraphDocument) \<times> GenState" where
  "generateFromCodePosition env options st =
     (let depth = (case opt_depth options of Some d \<Rightarrow> d | None \<Rightarrow> 2);
          direction = (case opt_direction options of Some d \<Rightarrow> d | None \<Rightarrow> Both)
      in if \<not> hasWorkspace env then (Inl WorkspaceNotOpened, st)
         else
           (case getCallHierarchy (lsp env) depth of
              None \<Rightarrow> (Inl UnableToGetCallHierarchy, st)
            | Some hierarchy \<Rightarrow>
                (case convertToGraphData env hierarchy direction
                        \<lparr>nodeMap = [], edges = [], visitedNodes = []\<rparr> of
                   (nodes, st') \<Rightarrow>
                     (let title = (case nodes of
                                     [] \<Rightarrow> ''Call graph''
                                   | rootNode # _ \<Rightarrow>
                                       ''Call graph for '' @
                                       (if node_label rootNode \<noteq> [] then node_label rootNode
                                        else node_id rootNode))
                      in (Inr \<lparr>doc_title = title, doc_nodes = nodes, doc_edges = edges st'\<rparr>,
                          st')))))"


section \<open>Sample call hierarchies\<close>

text \<open>
  Three functions \<^verbatim>\<open>A\<close>, \<^verbatim>\<open>B\<close> and \<^verbatim>\<open>C\<close> of one file of the workspace
  \<^verbatim>\<open>/ws\<close>. \<open>md5Table\<close> holds the MD5 digests of the three strings the generator
  hashes for them.
\<close>

definition sampleItem :: "string \<Rightarrow> nat \<Rightarrow> CallHierarchyItem" where
  "sampleItem name line =
     \<lparr>chi_name = name, chi_kind = 11,
      chi_uri = \<lparr>fsPath = ''/ws/src/a.ts'', uriString = ''file:///ws/src/a.ts''\<rparr>,
      chi_rangeStart = (line, 9), chi_detail = None, chi_selectionStart = Some (line, 9)\<rparr>"

definition itemA :: CallHierarchyItem where "itemA = sampleItem ''A'' 1"

definition itemB :: CallHierarchyItem where "itemB = sampleItem ''B'' 5"


definition md5Table :: "string \<Rightarrow> string" where
  "md5Table s =
     (if s = ''src/a.ts:1:9:A'' then ''9662c6055a629e4d6d77153be562ef30''
      else if s = ''src/a.ts:5:9:B'' then ''a82c4b26c6418f90f3f84fc3093efa7e''
      else if s = ''src/a.ts:9:9:C'' then ''0963ed9df29eb4d4762073857df1a45f''
      else [])"

text \<open>The cycle: \<^verbatim>\<open>A\<close> calls \<^verbatim>\<open>B\<close> and \<^verbatim>\<open>B\<close> calls \<^verbatim>\<open>A\<close>; the cursor is on \<^verbatim>\<open>A\<close>.\<close>

definition cycleLsp :: Lsp where
  "cycleLsp =
     \<lparr>prepareCallHierarchy = Some [itemA],
      provideIncomingCalls =
        (\<lambda>item. if chi_name item = ''A'' then Some [itemB]
                 else if chi_name item = ''B'' then Some [itemA] else None),
      provideOutgoingCalls =
        (\<lambda>item. if chi_name item = ''A'' then Some [itemB]
                 else if chi_name item = ''B'' then Some [itemA] else None)\<rparr>"

definition sampleEnv :: "Lsp \<Rightarrow> GenEnv" where
  "sampleEnv server =
     \<lparr>hasWorkspace = True,
      relativePath = (\<lambda>p. if p = ''/ws/src/a.ts'' then ''src/a.ts'' else p),
      md5hex = md5Table,
      hoverSignature = (\<lambda>item. None),
      lsp = server\<rparr>"

definition emptyState :: GenState where
  "emptyState = \<lparr>nodeMap = [], edges = [], visitedNodes = []\<rparr>"


text \<open>
  \<open>twoCycle server a b\<close>: the cursor is on \<open>a\<close>, and for the server \<open>a\<close> calls \<open>b\<close>
  and \<open>b\<close> calls \<open>a\<close>, two items with different keys.
\<close>

definition twoCycle :: "Lsp \<Rightarrow> CallHierarchyItem \<Rightarrow> CallHierarchyItem \<Rightarrow> bool" where
  "twoCycle server a b =
     ((\<exists>rest. prepareCallHierarchy server = Some (a # rest)) \<and>
      provideIncomingCalls server a = Some [b] \<and>
      provideIncomingCalls server b = Some [a] \<and>
      provideOutgoingCalls server a = Some [b] \<and>
      provideOutgoingCalls server b = Some [a] \<and>
      getNodeKey a \<noteq> getNodeKey b)"






section \<open>Method library (services/methodLibrary.ts)\<close>

text \<open>
  A \<open>MethodItem\<close> is the argument of \<open>add\<close> (every field but \<open>id\<close> and \<open>addedAt\<close>)
  extended by the two fields \<open>add\<close> fills in. The stored list is the value kept in
  \<open>workspaceState\<close> under the library's key; its default is the empty list.
\<close>

record MethodInput =
  mi_name :: string
  mi_uri :: string
  mi_containerName :: "string option"
  mi_line :: nat
  mi_signature :: "string option"

record MethodItem = MethodInput +
  mi_id :: string
  mi_addedAt :: nat

definition sameLocation :: "MethodInput \<Rightarrow> MethodItem \<Rightarrow> bool" where
  "sameLocation method m = (mi_uri m = mi_uri method \<and> mi_line m = mi_line method)"

text \<open>
  \<open>add\<close>: the fresh id (built from the clock and a random number) and the time stamp
  are supplied by the caller of the model. The result is the returned item and the
  stored list afterwards.
\<close>

definition add :: "MethodItem list \<Rightarrow> MethodInput \<Rightarrow> string \<Rightarrow> nat \<Rightarrow> MethodItem \<times> MethodItem list" where
  "add methods method newId now =
     (case find (sameLocation method) methods of
        Some existing \<Rightarrow> (existing, methods)
      | None \<Rightarrow>
          (let newMethod =
                 \<lparr>mi_name = mi_name method, mi_uri = mi_uri method,
                  mi_containerName = mi_containerName method, mi_line = mi_line method,
                  mi_signature = mi_signature method, mi_id = newId, mi_addedAt = now\<rparr>
           in (newMethod, methods @ [newMethod])))"

text \<open>\<open>Array.prototype.findIndex\<close>: the first index whose element satisfies \<open>P\<close>, else \<open>-1\<close>.\<close>

fun findIndex :: "('a \<Rightarrow> bool) \<Rightarrow> 'a list \<Rightarrow> int" where
  "findIndex P [] = - 1"
| "findIndex P (x # xs) =
     (if P x then 0 else (let i = findIndex P xs in if i < 0 then - 1 else i + 1))"

definition remove :: "MethodItem list \<Rightarrow> string \<Rightarrow> MethodItem list" where
  "remove methods ident =
     (let index = findIndex (\<lambda>m. mi_id m = ident) methods
      in if index \<ge> 0 then take (nat index) methods @ drop (nat index + 1) methods
         else methods)"

definition clear :: "MethodItem list \<Rightarrow> MethodItem list" where
  "clear methods = []"

inductive reachable :: "MethodItem list \<Rightarrow> bool" where
  reach_init: "reachable []"
| reach_add: "reachable s \<Longrightarrow> reachable (snd (add s method newId now))"
| reach_remove: "reachable s \<Longrightarrow> reachable (remove s ident)"
| reach_clear: "reachable s \<Longrightarrow> reachable (clear s)"

definition locations :: "MethodItem list \<Rightarrow> (string \<times> nat) list" where
  "locations methods = map (\<lambda>m. (mi_uri m, mi_line m)) methods"


chapter \<open>Properties\<close>


section \<open>Properties of splitParams\<close>

lemma bracketStep_depth:
  assumes "isClosing c \<longrightarrow> closes c opened"
  shows "int (length (bracketStep opened c)) =
     (if c = CHR ''<'' \<or> c = CHR ''['' \<or> c = CHR ''{'' then int (length opened) + 1
      else if c = CHR ''>'' \<or> c = CHR '']'' \<or> c = CHR ''}'' then int (length opened) - 1
      else int (length opened))"
proof (cases opened)
  case Nil
  with assms show ?thesis
    by (auto simp: bracketStep_def isOpening_def isClosing_def closes_def)
next
  case (Cons b bs)
  with assms show ?thesis
    by (auto simp: bracketStep_def isOpening_def isClosing_def closes_def)
qed

lemma bracketStep_comma: "bracketStep opened (CHR '','') = opened"
  by (simp add: bracketStep_def isOpening_def closes_def split: list.splits)

lemma loop_no_split:
  "paired opened s \<Longrightarrow>
   (\<forall>a b. s = a @ CHR '','' # b \<longrightarrow> openBrackets opened a \<noteq> []) \<Longrightarrow>
   splitParams_loop s res cur (int (length opened)) =
     (if trim (cur @ s) \<noteq> [] then res @ [cur @ s] else res)"
proof (induction s arbitrary: cur opened)
  case Nil
  then show ?case by simp
next
  case (Cons c s)
  from Cons.prems(1) have cl: "isClosing c \<longrightarrow> closes c opened"
    and p: "paired (bracketStep opened c) s"
    by simp_all
  have step: "openBrackets (bracketStep opened c) a \<noteq> []" if "s = a @ CHR '','' # b" for a b
  proof -
    from that have "c # s = (c # a) @ CHR '','' # b" by simp
    with Cons.prems(2) have "openBrackets opened (c # a) \<noteq> []" by blast
    then show ?thesis by simp
  qed
  have ih: "splitParams_loop s res (cur @ [c]) (int (length (bracketStep opened c))) =
      (if trim ((cur @ [c]) @ s) \<noteq> [] then res @ [(cur @ [c]) @ s] else res)"
    by (rule Cons.IH [OF p]) (use step in blast)
  have comma: "opened \<noteq> []" if "c = CHR '',''"
    using Cons.prems(2) [rule_format, of "[]" s] that by simp
  show ?case using ih comma
    by (auto simp: bracketStep_depth [OF cl])
qed

lemma loop_first_split:
  "paired opened (a @ CHR '','' # b) \<Longrightarrow>
   openBrackets opened a = [] \<Longrightarrow>
   (\<forall>a' b'. a = a' @ CHR '','' # b' \<longrightarrow> openBrackets opened a' \<noteq> []) \<Longrightarrow>
   splitParams_loop (a @ CHR '','' # b) res cur (int (length opened)) =
     splitParams_loop b (res @ [cur @ a]) [] 0"
proof (induction a arbitrary: cur opened)
  case Nil
  then show ?case by simp
next
  case (Cons c a)
  from Cons.prems(1) have cl: "isClosing c \<longrightarrow> closes c opened"
    and p: "paired (bracketStep opened c) (a @ CHR '','' # b)"
    by simp_all
  from Cons.prems(2) have z: "openBrackets (bracketStep opened c) a = []" by simp
  have step: "openBrackets (bracketStep opened c) a' \<noteq> []" if "a = a' @ CHR '','' # b'" for a' b'
  proof -
    from that have "c # a = (c # a') @ CHR '','' # b'" by simp
    with Cons.prems(3) have "openBrackets opened (c # a') \<noteq> []" by blast
    then show ?thesis by simp
  qed
  have ih: "splitParams_loop (a @ CHR '','' # b) res (cur @ [c]) (int (length (bracketStep opened c))) =
      splitParams_loop b (res @ [(cur @ [c]) @ a]) [] 0"
    by (rule Cons.IH [OF p z]) (use step in blast)
  have comma: "opened \<noteq> []" if "c = CHR '',''"
    using Cons.prems(3) [rule_format, of "[]" a] that by simp
  show ?case using ih comma
    by (auto simp: bracketStep_depth [OF cl])
qed

lemma loop_result_prefix:
  "splitParams_loop s (r @ res) cur d = r @ splitParams_loop s res cur d"
  by (induction s arbitrary: res cur d) simp_all

text \<open>
  On a paired string \<open>splitParams\<close> does what its documentation says. A paired string
  with no comma at nesting depth zero is returned as one piece (none when it is blank);
  in a paired string the text before the first comma at nesting depth zero is the first
  piece, and the rest of the string is split in the same way. So in a paired string the
  splits are exactly at the commas that are not nested.
\<close>

lemma splitParams_paired_no_split:
  assumes "paired [] s"
    and "\<forall>a b. s = a @ CHR '','' # b \<longrightarrow> nestingDepth a \<noteq> 0"
  shows "splitParams s = (if trim s = [] then [] else [s])"
proof -
  from assms(2) have "\<forall>a b. s = a @ CHR '','' # b \<longrightarrow> openBrackets [] a \<noteq> []"
    by (simp add: nestingDepth_def)
  from loop_no_split [OF assms(1) this, of "[]" "[]"] show ?thesis
    by (simp add: splitParams_def)
qed

lemma splitParams_paired_first_split:
  assumes "paired [] (a @ CHR '','' # b)"
    and "nestingDepth a = 0"
    and "\<forall>a' b'. a = a' @ CHR '','' # b' \<longrightarrow> nestingDepth a' \<noteq> 0"
  shows "splitParams (a @ CHR '','' # b) = a # splitParams b"
proof -
  from assms(2) have z: "openBrackets [] a = []" by (simp add: nestingDepth_def)
  from assms(3) have n: "\<forall>a' b'. a = a' @ CHR '','' # b' \<longrightarrow> openBrackets [] a' \<noteq> []"
    by (simp add: nestingDepth_def)
  from loop_first_split [OF assms(1) z n, of "[]" "[]"]
  have "splitParams (a @ CHR '','' # b) = splitParams_loop b ([a] @ []) [] 0"
    by (simp add: splitParams_def)
  also have "\<dots> = [a] @ splitParams_loop b [] [] 0"
    by (rule loop_result_prefix)
  finally show ?thesis by (simp add: splitParams_def)
qed

text \<open>
  Claim C7. The claim fails in the code: a comma nested inside brackets does split
  when a closing bracket with no partner stands before the brackets, as the
  \<^verbatim>\<open>>\<close> of an arrow does. The counter of \<open>splitParams\<close> goes below zero at such a
  closing bracket, the next opening bracket brings it back to zero, and the comma
  inside that bracket is taken for a top-level one, while the top-level comma before
  it, read with the counter at minus one, is passed over. In
  \<^verbatim>\<open>f: Int => Int, m: Map[K, V]\<close> the first comma is at nesting depth zero and the
  second is nested in \<^verbatim>\<open>[K, V]\<close>; \<open>splitParams\<close> splits at the second and not at
  the first, and the types extracted from this parameter list are \<^verbatim>\<open>(Int, V)\<close>.
  The same happens in \<^verbatim>\<open>a>, <b, c>\<close>. The claim's own example, a paired string,
  is split as the claim says.
\<close>

theorem splitParams_splits_nested_comma:
  "nestingDepth ''f: Int => Int'' = 0 \<and>
   nestingDepth ''f: Int => Int, m: Map[K'' = 1 \<and>
   ''f: Int => Int, m: Map[K, V]'' = ''f: Int => Int'' @ '','' @ '' m: Map[K'' @ '','' @ '' V]'' \<and>
   splitParams ''f: Int => Int, m: Map[K, V]'' = [''f: Int => Int, m: Map[K'', '' V]''] \<and>
   extractTypesFromParams ''f: Int => Int, m: Map[K, V]'' = ''(Int, V)'' \<and>
   nestingDepth ''a>'' = 0 \<and>
   nestingDepth ''a>, <b'' = 1 \<and>
   ''a>, <b, c>'' = ''a>'' @ '','' @ '' <b'' @ '','' @ '' c>'' \<and>
   splitParams ''a>, <b, c>'' = [''a>, <b'', '' c>''] \<and>
   splitParams ''Map<string, number>, bool'' = [''Map<string, number>'', '' bool'']"
  by code_simp

section \<open>Properties of normalizeSymbolName\<close>

lemma takeWhile_unique:
  "x \<notin> set p \<Longrightarrow>
   takeWhile (\<lambda>c. c \<noteq> x) (p @ x # r) = p \<and> dropWhile (\<lambda>c. c \<noteq> x) (p @ x # r) = x # r"
  by (induction p) auto

lemma dropWhile_space_split:
  "\<forall>c\<in>set w. is_space c \<Longrightarrow> dropWhile is_space (w @ t) = dropWhile is_space t"
  by (induction w) auto

lemma dropWhile_hd:
  "dropWhile (\<lambda>c. c \<noteq> x) s \<noteq> [] \<Longrightarrow>
   dropWhile (\<lambda>c. c \<noteq> x) s = x # tl (dropWhile (\<lambda>c. c \<noteq> x) s)"
  by (induction s) auto

text \<open>The computed match is the match of the regular expression, in both directions.\<close>

lemma matchName_complete:
  assumes "namePattern s p q"
  shows "matchName s = Some (p, q)"
proof -
  from assms obtain w t where
    p: "p \<noteq> []" "CHR ''('' \<notin> set p" and q: "CHR '')'' \<notin> set q" and
    s: "s = p @ CHR ''('' # q @ CHR '')'' # w @ t" and w: "\<forall>c\<in>set w. is_space c" and
    t: "t = [] \<or> (\<exists>w' r. t = CHR '':'' # w' @ r \<and> (\<forall>c\<in>set w'. is_space c) \<and>
             (\<forall>c\<in>set r. \<not> is_line_terminator c))"
    by (auto simp: namePattern_def)
  have 1: "takeWhile (\<lambda>c. c \<noteq> CHR ''('') s = p"
    "dropWhile (\<lambda>c. c \<noteq> CHR ''('') s = CHR ''('' # q @ CHR '')'' # w @ t"
    using takeWhile_unique [OF p(2)] s by simp_all
  have 2: "takeWhile (\<lambda>c. c \<noteq> CHR '')'') (q @ CHR '')'' # w @ t) = q"
     "dropWhile (\<lambda>c. c \<noteq> CHR '')'') (q @ CHR '')'' # w @ t) = CHR '')'' # w @ t"
    using takeWhile_unique [OF q] by simp_all
  have 3: "dropWhile is_space (w @ t) = dropWhile is_space t"
    by (rule dropWhile_space_split [OF w])
  have m: "matchName s =
     (case dropWhile is_space t of
        [] \<Rightarrow> Some (p, q)
      | c # r \<Rightarrow>
          if c = CHR '':'' \<and> \<not> list_ex is_line_terminator (dropWhile is_space r)
          then Some (p, q) else None)"
    using p 1 2 3 by (simp add: matchName_def)
  from t show ?thesis
  proof
    assume "t = []"
    then show ?thesis by (simp add: m)
  next
    assume "\<exists>w' r. t = CHR '':'' # w' @ r \<and> (\<forall>c\<in>set w'. is_space c) \<and>
             (\<forall>c\<in>set r. \<not> is_line_terminator c)"
    then obtain w' r where t': "t = CHR '':'' # w' @ r" and w': "\<forall>c\<in>set w'. is_space c"
      and r: "\<forall>c\<in>set r. \<not> is_line_terminator c" by blast
    have a: "dropWhile is_space t = CHR '':'' # w' @ r" using t' by (simp add: is_space_def)
    have b: "dropWhile is_space (w' @ r) = dropWhile is_space r"
      by (rule dropWhile_space_split [OF w'])
    have "set (dropWhile is_space r) \<subseteq> set r" by (rule set_dropWhileD [THEN subsetI])
    with r have c: "\<not> list_ex is_line_terminator (dropWhile is_space r)"
      by (auto simp: list_ex_iff)
    show ?thesis by (simp add: m a b c)
  qed
qed

lemma matchName_sound:
  assumes "matchName s = Some (p, q)"
  shows "namePattern s p q"
proof -
  define ap where "ap = dropWhile (\<lambda>c. c \<noteq> CHR ''('') s"
  define aq where "aq = dropWhile (\<lambda>c. c \<noteq> CHR '')'') (tl ap)"
  define w where "w = takeWhile is_space (tl aq)"
  define t where "t = dropWhile is_space (tl aq)"
  from assms have ne: "takeWhile (\<lambda>c. c \<noteq> CHR ''('') s \<noteq> []" "ap \<noteq> []" "aq \<noteq> []"
    by (auto simp: matchName_def Let_def ap_def aq_def split: if_splits)
  with assms have pq: "p = takeWhile (\<lambda>c. c \<noteq> CHR ''('') s"
    "q = takeWhile (\<lambda>c. c \<noteq> CHR '')'') (tl ap)"
    by (auto simp: matchName_def Let_def ap_def aq_def split: if_splits list.splits)
  from ne assms have t:
    "t = [] \<or> (\<exists>r. t = CHR '':'' # r \<and> \<not> list_ex is_line_terminator (dropWhile is_space r))"
    by (auto simp: matchName_def Let_def ap_def aq_def t_def split: if_splits list.splits)
  have "s = p @ ap" by (simp add: pq ap_def)
  also have "ap = ''('' @ tl ap" using ne(2) dropWhile_hd unfolding ap_def by fastforce
  also have "tl ap = q @ aq" by (simp add: pq aq_def)
  also have "aq = '')'' @ tl aq" using ne(3) dropWhile_hd unfolding aq_def by fastforce
  also have "tl aq = w @ t" by (simp add: w_def t_def)
  finally have s: "s = p @ ''('' @ q @ '')'' @ w @ t" .
  have p1: "p \<noteq> []" "CHR ''('' \<notin> set p" using ne(1) by (auto simp: pq dest: set_takeWhileD)
  have q1: "CHR '')'' \<notin> set q" by (auto simp: pq dest: set_takeWhileD)
  have w1: "\<forall>c\<in>set w. is_space c" by (auto simp: w_def dest: set_takeWhileD)
  from t have t1: "t = [] \<or> (\<exists>w' r. t = '':'' @ w' @ r \<and> (\<forall>c\<in>set w'. is_space c) \<and>
             (\<forall>c\<in>set r. \<not> is_line_terminator c))"
  proof
    assume "t = []" then show ?thesis by simp
  next
    assume "\<exists>r. t = CHR '':'' # r \<and> \<not> list_ex is_line_terminator (dropWhile is_space r)"
    then obtain r where r: "t = CHR '':'' # r"
      "\<not> list_ex is_line_terminator (dropWhile is_space r)"
      by blast
    have "t = '':'' @ takeWhile is_space r @ dropWhile is_space r" using r by simp
    moreover have "\<forall>c\<in>set (takeWhile is_space r). is_space c" by (auto dest: set_takeWhileD)
    moreover have "\<forall>c\<in>set (dropWhile is_space r). \<not> is_line_terminator c"
      using r(2) by (simp add: list_ex_iff)
    ultimately show ?thesis by blast
  qed
  from s w1 t1 have "\<exists>w t. s = p @ ''('' @ q @ '')'' @ w @ t \<and> (\<forall>c\<in>set w. is_space c) \<and>
         (t = [] \<or>
          (\<exists>w' r. t = '':'' @ w' @ r \<and> (\<forall>c\<in>set w'. is_space c) \<and>
             (\<forall>c\<in>set r. \<not> is_line_terminator c)))"
    by blast
  with p1 q1 show ?thesis unfolding namePattern_def by blast
qed

text \<open>
  Claim C3. When \<open>rawName\<close> matches the pattern (a prefix, a parenthesised group, an
  optional suffix that starts with a colon, the end of the string),
  \<open>normalizeSymbolName\<close> returns the trimmed prefix as \<open>bareName\<close> and the trimmed
  content of the group between parentheses as \<open>signature\<close>. When it does not match, it
  returns \<open>rawName\<close> unchanged as \<open>bareName\<close>, and as \<open>signature\<close> the detail if one is
  given and is not empty, else none. In particular \<^verbatim>\<open>add\<close> gives \<^verbatim>\<open>add\<close> with no
  signature, and \<^verbatim>\<open>Method(int, string) : void\<close> gives \<^verbatim>\<open>Method\<close> with the signature
  \<^verbatim>\<open>(int, string)\<close>.
\<close>

theorem normalizeSymbolName_cases:
  "(namePattern rawName p q \<longrightarrow>
      normalizeSymbolName rawName rawDetail =
        \<lparr>bareName = trim p, signature = Some (''('' @ trim q @ '')'')\<rparr>) \<and>
   ((\<forall>p q. \<not> namePattern rawName p q) \<longrightarrow>
      normalizeSymbolName rawName rawDetail =
        \<lparr>bareName = rawName,
         signature = (if rawDetail = None \<or> rawDetail = Some [] then None else rawDetail)\<rparr>) \<and>
   normalizeSymbolName ''add'' None = \<lparr>bareName = ''add'', signature = None\<rparr> \<and>
   normalizeSymbolName ''Method(int, string) : void'' None =
     \<lparr>bareName = ''Method'', signature = Some ''(int, string)''\<rparr>"
proof (intro conjI impI)
  assume "namePattern rawName p q"
  then have "matchName rawName = Some (p, q)" by (rule matchName_complete)
  then show "normalizeSymbolName rawName rawDetail =
        \<lparr>bareName = trim p, signature = Some (''('' @ trim q @ '')'')\<rparr>"
    by (simp add: normalizeSymbolName_def)
next
  assume no: "\<forall>p q. \<not> namePattern rawName p q"
  have "matchName rawName = None"
  proof (cases "matchName rawName")
    case None
    then show ?thesis .
  next
    case (Some pq)
    then have "namePattern rawName (fst pq) (snd pq)" by (simp add: matchName_sound)
    with no show ?thesis by blast
  qed
  then show "normalizeSymbolName rawName rawDetail =
        \<lparr>bareName = rawName,
         signature = (if rawDetail = None \<or> rawDetail = Some [] then None else rawDetail)\<rparr>"
    by (auto simp: normalizeSymbolName_def split: option.splits)
next
  show "normalizeSymbolName ''add'' None = \<lparr>bareName = ''add'', signature = None\<rparr>"
    by (simp add: normalizeSymbolName_def matchName_def)
next
  show "normalizeSymbolName ''Method(int, string) : void'' None =
     \<lparr>bareName = ''Method'', signature = Some ''(int, string)''\<rparr>"
    by (simp add: normalizeSymbolName_def matchName_def trim_def is_space_def
        is_line_terminator_def)
qed

theorem normalizeSymbolName_cases_witness:
  "namePattern ''Calc(int x) : void'' ''Calc'' ''int x'' \<and>
   normalizeSymbolName ''Calc(int x) : void'' (Some ''void'') =
     \<lparr>bareName = ''Calc'', signature = Some ''(int x)''\<rparr> \<and>
   (\<forall>p q. \<not> namePattern ''add'' p q) \<and>
   normalizeSymbolName ''add'' (Some ''(a: number): number'') =
     \<lparr>bareName = ''add'', signature = Some ''(a: number): number''\<rparr>"
proof -
  have "matchName ''Calc(int x) : void'' = Some (''Calc'', ''int x'')"
    by (simp add: matchName_def is_space_def is_line_terminator_def)
  then have a: "namePattern ''Calc(int x) : void'' ''Calc'' ''int x''"
    by (rule matchName_sound)
  have n: "matchName ''add'' = None"
    by (simp add: matchName_def)
  have b: "\<forall>p q. \<not> namePattern ''add'' p q"
  proof (intro allI notI)
    fix p q
    assume "namePattern ''add'' p q"
    then have "matchName ''add'' = Some (p, q)" by (rule matchName_complete)
    with n show False by simp
  qed
  from normalizeSymbolName_cases [of "''Calc(int x) : void''" "''Calc''" "''int x''" "Some ''void''"] a
  have c: "normalizeSymbolName ''Calc(int x) : void'' (Some ''void'') =
     \<lparr>bareName = trim ''Calc'', signature = Some (''('' @ trim ''int x'' @ '')'')\<rparr>"
    by blast
  from normalizeSymbolName_cases [of "''add''" _ _ "Some ''(a: number): number''"] b
  have d: "normalizeSymbolName ''add'' (Some ''(a: number): number'') =
     \<lparr>bareName = ''add'',
      signature = (if Some ''(a: number): number'' = None \<or> Some ''(a: number): number'' = Some []
                   then None else Some ''(a: number): number'')\<rparr>"
    by blast
  from c have c': "normalizeSymbolName ''Calc(int x) : void'' (Some ''void'') =
     \<lparr>bareName = ''Calc'', signature = Some ''(int x)''\<rparr>"
    by (simp add: trim_def is_space_def)
  from d have d': "normalizeSymbolName ''add'' (Some ''(a: number): number'') =
     \<lparr>bareName = ''add'', signature = Some ''(a: number): number''\<rparr>"
    by simp
  from a b c' d' show ?thesis by blast
qed


section \<open>Properties of findSymbol\<close>

lemma findSymbol_loop_Cons:
  "findSymbol_loop (x # rest) name cn line depth =
     (case matchSymbol name cn line x of
        Some found \<Rightarrow> Some found
      | None \<Rightarrow>
          (case findSymbol (ds_children x) name cn line (depth + 1) of
             Some found \<Rightarrow> Some found
           | None \<Rightarrow> findSymbol_loop rest name cn line depth))"
  by (cases x) (simp only: findSymbol_loop.simps DocumentSymbol.sel)

lemma findSymbol_loop_append:
  "findSymbol_loop (xs @ ys) name cn line depth =
     (case findSymbol_loop xs name cn line depth of
        Some r \<Rightarrow> Some r
      | None \<Rightarrow> findSymbol_loop ys name cn line depth)"
proof (induction xs)
  case Nil
  then show ?case by simp
next
  case (Cons x xs)
  then show ?case by (cases x) (simp del: findSymbol.simps split: option.splits)
qed

lemma reaches_match:
  "reaches name cn line depth symbols symbol \<Longrightarrow>
   matchSymbol name cn line symbol = Some r \<Longrightarrow>
   findSymbol symbols name cn line depth = Some r"
proof (induction rule: reaches.induct)
  case (reaches_here before depth symbol after)
  then show ?case by (simp add: findSymbol_loop_append findSymbol_loop_Cons)
next
  case (reaches_child before depth parent symbol after)
  then show ?case by (simp add: findSymbol_loop_append findSymbol_loop_Cons)
qed

lemma container_match:
  assumes "containerName = Some c" "c \<noteq> []" "ds_name container = c"
    and "containerChild name line (ds_children container) = Some child"
  shows "matchSymbol name containerName line container = Some child"
  using assms by (simp add: matchSymbol_def truthy_def)

text \<open>
  Claim C1. Let the stored reference have a container name (set and not empty), and let
  the search come to a symbol whose name equals it. Then it looks through the direct
  children of that symbol in a fixed order and returns the first child found: (a) the
  first child whose name equals the stored name; (b) failing that, the first child
  whose bare name equals the bare name of the stored name; (c) failing that, and when a
  line is stored, the first child whose selection range starts on the stored line. In
  particular, for the stored reference \<^verbatim>\<open>multiply\<close> in \<^verbatim>\<open>Calculator\<close> at line 40, and
  the tree whose symbol \<^verbatim>\<open>Calculator\<close> has the children \<^verbatim>\<open>add\<close> (line 22),
  \<^verbatim>\<open>subtract\<close> (line 34) and \<^verbatim>\<open>multiply\<close> (line 40), the result is the child
  \<^verbatim>\<open>multiply\<close>.
\<close>

theorem findSymbol_container_children:
  assumes "containerName = Some c" and "c \<noteq> []"
    and "reaches name containerName line depth symbols container"
    and "ds_name container = c"
  shows
    "(find (\<lambda>x. ds_name x = name) (ds_children container) = Some child \<longrightarrow>
        findSymbol symbols name containerName line depth = Some child) \<and>
     (find (\<lambda>x. ds_name x = name) (ds_children container) = None \<and>
      find (\<lambda>x. bareNameOf (ds_name x) = bareNameOf name) (ds_children container) = Some child \<longrightarrow>
        findSymbol symbols name containerName line depth = Some child) \<and>
     (find (\<lambda>x. ds_name x = name) (ds_children container) = None \<and>
      find (\<lambda>x. bareNameOf (ds_name x) = bareNameOf name) (ds_children container) = None \<and>
      line = Some l \<and> find (\<lambda>x. ds_line x = l) (ds_children container) = Some child \<longrightarrow>
        findSymbol symbols name containerName line depth = Some child) \<and>
     findSymbol
       [DocumentSymbol ''Calculator'' 20 6
          [DocumentSymbol ''add'' 22 2 [], DocumentSymbol ''subtract'' 34 2 [],
           DocumentSymbol ''multiply'' 40 2 []]]
       ''multiply'' (Some ''Calculator'') (Some 40) 0
     = Some (DocumentSymbol ''multiply'' 40 2 [])"
proof -
  have via: "findSymbol symbols name containerName line depth = Some child"
    if "containerChild name line (ds_children container) = Some child"
    using reaches_match [OF assms(3) container_match [OF assms(1,2,4) that]] .
  have a: "findSymbol symbols name containerName line depth = Some child"
    if "find (\<lambda>x. ds_name x = name) (ds_children container) = Some child"
    using that by (intro via) (simp add: containerChild_def)
  have b: "findSymbol symbols name containerName line depth = Some child"
    if "find (\<lambda>x. ds_name x = name) (ds_children container) = None"
      and "find (\<lambda>x. bareNameOf (ds_name x) = bareNameOf name) (ds_children container) = Some child"
    using that by (intro via) (simp add: containerChild_def)
  have c: "findSymbol symbols name containerName line depth = Some child"
    if "find (\<lambda>x. ds_name x = name) (ds_children container) = None"
      and "find (\<lambda>x. bareNameOf (ds_name x) = bareNameOf name) (ds_children container) = None"
      and "line = Some l" and "find (\<lambda>x. ds_line x = l) (ds_children container) = Some child"
    using that by (intro via) (simp add: containerChild_def)
  have d: "findSymbol
       [DocumentSymbol ''Calculator'' 20 6
          [DocumentSymbol ''add'' 22 2 [], DocumentSymbol ''subtract'' 34 2 [],
           DocumentSymbol ''multiply'' 40 2 []]]
       ''multiply'' (Some ''Calculator'') (Some 40) 0
     = Some (DocumentSymbol ''multiply'' 40 2 [])"
    by (simp add: matchSymbol_def truthy_def containerChild_def)
  from a b c d show ?thesis by blast
qed

theorem findSymbol_container_children_witness:
  "reaches ''multiply'' (Some ''Calculator'') (Some 40) 0
     [DocumentSymbol ''helper'' 3 9 [],
      DocumentSymbol ''Calculator'' 20 6
        [DocumentSymbol ''add'' 22 2 [], DocumentSymbol ''subtract'' 34 2 [],
         DocumentSymbol ''multiply(int, int) : int'' 41 2 []]]
     (DocumentSymbol ''Calculator'' 20 6
        [DocumentSymbol ''add'' 22 2 [], DocumentSymbol ''subtract'' 34 2 [],
         DocumentSymbol ''multiply(int, int) : int'' 41 2 []]) \<and>
   find (\<lambda>x. ds_name x = ''multiply'')
     [DocumentSymbol ''add'' 22 2 [], DocumentSymbol ''subtract'' 34 2 [],
      DocumentSymbol ''multiply(int, int) : int'' 41 2 []] = None \<and>
   find (\<lambda>x. bareNameOf (ds_name x) = bareNameOf ''multiply'')
     [DocumentSymbol ''add'' 22 2 [], DocumentSymbol ''subtract'' 34 2 [],
      DocumentSymbol ''multiply(int, int) : int'' 41 2 []]
     = Some (DocumentSymbol ''multiply(int, int) : int'' 41 2 []) \<and>
   findSymbol
     [DocumentSymbol ''helper'' 3 9 [],
      DocumentSymbol ''Calculator'' 20 6
        [DocumentSymbol ''add'' 22 2 [], DocumentSymbol ''subtract'' 34 2 [],
         DocumentSymbol ''multiply(int, int) : int'' 41 2 []]]
     ''multiply'' (Some ''Calculator'') (Some 40) 0
     = Some (DocumentSymbol ''multiply(int, int) : int'' 41 2 [])"
proof -
  let ?children = "[DocumentSymbol ''add'' 22 2 [], DocumentSymbol ''subtract'' 34 2 [],
      DocumentSymbol ''multiply(int, int) : int'' 41 2 []]"
  let ?calc = "DocumentSymbol ''Calculator'' 20 6 ?children"
  let ?helper = "DocumentSymbol ''helper'' 3 9 []"
  have "findSymbol_loop [?helper] ''multiply'' (Some ''Calculator'') (Some 40) 0 = None"
    by (simp add: matchSymbol_def truthy_def bareNameOf_def normalizeSymbolName_def matchName_def
        qualifiedNames_def suffixes_def endsWith_def)
  then have "reaches ''multiply'' (Some ''Calculator'') (Some 40) 0 ([?helper] @ ?calc # []) ?calc"
    by (rule reaches_here)
  then have r: "reaches ''multiply'' (Some ''Calculator'') (Some 40) 0 [?helper, ?calc] ?calc"
    by simp
  have a: "find (\<lambda>x. ds_name x = ''multiply'') ?children = None"
    by simp
  have b: "find (\<lambda>x. bareNameOf (ds_name x) = bareNameOf ''multiply'') ?children
      = Some (DocumentSymbol ''multiply(int, int) : int'' 41 2 [])"
    by (simp add: bareNameOf_def normalizeSymbolName_def matchName_def trim_def is_space_def
        is_line_terminator_def)
  have n: "ds_name ?calc = ''Calculator''" and ne: "''Calculator'' \<noteq> []"
    by simp_all
  note t = findSymbol_container_children
    [where child = "DocumentSymbol ''multiply(int, int) : int'' 41 2 []", OF refl ne r n]
  from t a b have "findSymbol [?helper, ?calc] ''multiply'' (Some ''Calculator'') (Some 40) 0
      = Some (DocumentSymbol ''multiply(int, int) : int'' 41 2 [])"
    by (simp only: DocumentSymbol.sel simp_thms)
  with r a b show ?thesis by blast
qed


section \<open>Properties of navigateToCode\<close>

text \<open>
  Claim C4, as the code has it. The stored line is the fallback whenever the search
  gives no symbol and a line is stored: when the provider gives no symbol tree, and
  also when there is a tree and every strategy of \<open>findSymbol\<close> misses. The cursor is
  then put on that line, whatever the number of lines of the document, and the
  navigation is reported as a success. The node is marked broken, and the user told
  the name of the symbol that was not found, only when no symbol is found and no line
  is stored.
\<close>

theorem navigateToCode_line_fallback:
  assumes "node_symbol node = Some symbol" and "hasWorkspaceFolder env" and "documentOpens env"
    and "documentSymbols env = None \<or>
         (\<exists>symbols. documentSymbols env = Some symbols \<and>
            findSymbol symbols (sym_name symbol) (sym_containerName symbol) (sym_line symbol) 0 = None)"
  shows
    "(sym_line symbol = Some line \<longrightarrow>
        navigateToCode env node =
          \<lparr>posted = NavigationSuccess (node_id node), selection = Some (line, 0),
           userMessage = None\<rparr>) \<and>
     (sym_line symbol = None \<longrightarrow>
        navigateToCode env node =
          \<lparr>posted = NavigationFailed (node_id node) SymbolNotFound, selection = None,
           userMessage = Some (''Symbol not found: '' @ sym_name symbol)\<rparr> \<and>
        statusAfter (posted (navigateToCode env node)) status = Some Broken)"
  using assms by (auto simp: navigateToCode_def simp del: findSymbol.simps)

theorem navigateToCode_line_fallback_witness:
  "navigateToCode
     \<lparr>hasWorkspaceFolder = True, documentOpens = True, lineCount = 10, documentSymbols = None\<rparr>
     \<lparr>node_id = ''n1'', node_label = ''gone'', node_type = Some ''code'',
      node_symbol = Some \<lparr>sym_name = ''gone'', sym_uri = ''src/a.ts'', sym_containerName = None,
                          sym_line = Some 5, sym_signature = None\<rparr>\<rparr>
   = \<lparr>posted = NavigationSuccess ''n1'', selection = Some (5, 0), userMessage = None\<rparr> \<and>
   findSymbol [DocumentSymbol ''helper'' 3 9 []] ''gone'' None None 0 = None \<and>
   navigateToCode
     \<lparr>hasWorkspaceFolder = True, documentOpens = True, lineCount = 10,
      documentSymbols = Some [DocumentSymbol ''helper'' 3 9 []]\<rparr>
     \<lparr>node_id = ''n1'', node_label = ''gone'', node_type = Some ''code'',
      node_symbol = Some \<lparr>sym_name = ''gone'', sym_uri = ''src/a.ts'', sym_containerName = None,
                          sym_line = None, sym_signature = None\<rparr>\<rparr>
   = \<lparr>posted = NavigationFailed ''n1'' SymbolNotFound, selection = None,
      userMessage = Some ''Symbol not found: gone''\<rparr>"
proof -
  let ?env1 = "\<lparr>hasWorkspaceFolder = True, documentOpens = True, lineCount = 10,
      documentSymbols = None\<rparr>"
  let ?sym1 = "\<lparr>sym_name = ''gone'', sym_uri = ''src/a.ts'', sym_containerName = None,
      sym_line = Some 5, sym_signature = None\<rparr>"
  let ?node1 = "\<lparr>node_id = ''n1'', node_label = ''gone'', node_type = Some ''code'', node_symbol = Some ?sym1\<rparr>"
  let ?env2 = "\<lparr>hasWorkspaceFolder = True, documentOpens = True, lineCount = 10,
      documentSymbols = Some [DocumentSymbol ''helper'' 3 9 []]\<rparr>"
  let ?sym2 = "\<lparr>sym_name = ''gone'', sym_uri = ''src/a.ts'', sym_containerName = None,
      sym_line = None, sym_signature = None\<rparr>"
  let ?node2 = "\<lparr>node_id = ''n1'', node_label = ''gone'', node_type = Some ''code'', node_symbol = Some ?sym2\<rparr>"
  have miss: "findSymbol [DocumentSymbol ''helper'' 3 9 []] ''gone'' None None 0 = None"
    by (simp add: matchSymbol_def truthy_def bareNameOf_def normalizeSymbolName_def matchName_def)
  have h1: "node_symbol ?node1 = Some ?sym1" "hasWorkspaceFolder ?env1" "documentOpens ?env1"
    "documentSymbols ?env1 = None \<or>
      (\<exists>symbols. documentSymbols ?env1 = Some symbols \<and>
         findSymbol symbols (sym_name ?sym1) (sym_containerName ?sym1) (sym_line ?sym1) 0 = None)"
    by simp_all
  have h2: "node_symbol ?node2 = Some ?sym2" "hasWorkspaceFolder ?env2" "documentOpens ?env2"
    "documentSymbols ?env2 = None \<or>
      (\<exists>symbols. documentSymbols ?env2 = Some symbols \<and>
         findSymbol symbols (sym_name ?sym2) (sym_containerName ?sym2) (sym_line ?sym2) 0 = None)"
    using miss by simp_all
  from navigateToCode_line_fallback [OF h1, where line = 5]
  have a: "navigateToCode ?env1 ?node1 =
      \<lparr>posted = NavigationSuccess ''n1'', selection = Some (5, 0), userMessage = None\<rparr>"
    by simp
  from navigateToCode_line_fallback [OF h2]
  have b: "navigateToCode ?env2 ?node2 =
      \<lparr>posted = NavigationFailed ''n1'' SymbolNotFound, selection = None,
       userMessage = Some ''Symbol not found: gone''\<rparr>"
    by simp
  from a miss b show ?thesis by blast
qed

text \<open>
  The claim as it is written fails: with a symbol tree in which every strategy misses,
  and a stored line beyond the end of a document of ten lines, the stored line is
  still used, the navigation is reported as a success, and a node that was broken
  becomes normal.
\<close>

theorem navigateToCode_tree_miss_counterexample:
  "findSymbol [DocumentSymbol ''helper'' 3 9 []] ''gone'' None (Some 50) 0 = None \<and>
   navigateToCode
     \<lparr>hasWorkspaceFolder = True, documentOpens = True, lineCount = 10,
      documentSymbols = Some [DocumentSymbol ''helper'' 3 9 []]\<rparr>
     \<lparr>node_id = ''n1'', node_label = ''gone'', node_type = Some ''code'',
      node_symbol = Some \<lparr>sym_name = ''gone'', sym_uri = ''src/a.ts'', sym_containerName = None,
                          sym_line = Some 50, sym_signature = None\<rparr>\<rparr>
   = \<lparr>posted = NavigationSuccess ''n1'', selection = Some (50, 0), userMessage = None\<rparr> \<and>
   statusAfter (NavigationSuccess ''n1'') (Some Broken) = Some Normal"
  by (simp add: navigateToCode_def matchSymbol_def truthy_def bareNameOf_def
      normalizeSymbolName_def matchName_def)


section \<open>Properties of detectParamStyle\<close>

lemma detectParamStyle_Cons:
  "detectParamStyle (param # rest) =
     (case tokenSignal (trim param) of Some s \<Rightarrow> s | None \<Rightarrow> detectParamStyle rest)"
proof -
  have hd0: "xs ! 0 = hd xs" if "2 \<le> length xs" for xs :: "string list"
    using that by (cases xs) simp_all
  show ?thesis
    by (auto simp: tokenSignal_def skippedToken_def Let_def hd0)
qed

text \<open>
  Claim C2, as the code has it. \<open>detectParamStyle\<close> returns the style given by the
  first token that gives a signal, and \<open>Dynamic\<close> when no token gives one. Tokens that
  are empty once trimmed, the special parameters (a \<^verbatim>\<open>*\<close> or \<^verbatim>\<open>...\<close> prefix, and
  \<^verbatim>\<open>self\<close>, \<^verbatim>\<open>cls\<close>, \<^verbatim>\<open>this\<close>) and tokens of a single piece with neither a dollar
  sign nor the colon form give no signal and are passed over, so a later token can
  decide. The five examples of the claim hold.
\<close>

theorem detectParamStyle_first_signal:
  "detectParamStyle params =
     (case List.map_filter tokenSignal (map trim params) of [] \<Rightarrow> Dynamic | s # _ \<Rightarrow> s) \<and>
   detectParamStyle [''a: number'', ''b: string''] = Colon \<and>
   detectParamStyle [''int a'', ''String b''] = TypeBefore \<and>
   detectParamStyle [''a int'', ''b string''] = TypeAfterGo \<and>
   detectParamStyle [''int $a''] = Php \<and>
   detectParamStyle [''a'', ''b''] = Dynamic"
proof (intro conjI)
  show "detectParamStyle params =
     (case List.map_filter tokenSignal (map trim params) of [] \<Rightarrow> Dynamic | s # _ \<Rightarrow> s)"
  proof (induction params)
    case Nil
    show ?case by (simp add: map_filter_simps)
  next
    case (Cons param rest)
    show ?case
      by (simp only: detectParamStyle_Cons Cons.IH list.map map_filter_simps
          split: option.split) simp
  qed
qed code_simp+

theorem detectParamStyle_first_signal_witness:
  "List.map_filter tokenSignal (map trim [''self'', '' *args'', '' a'', '' b: T'']) = [Colon] \<and>
   detectParamStyle [''self'', '' *args'', '' a'', '' b: T''] = Colon"
proof -
  have a: "List.map_filter tokenSignal (map trim [''self'', '' *args'', '' a'', '' b: T'']) = [Colon]"
    by code_simp
  from detectParamStyle_first_signal [of "[''self'', '' *args'', '' a'', '' b: T'']"]
  have "detectParamStyle [''self'', '' *args'', '' a'', '' b: T''] =
     (case List.map_filter tokenSignal (map trim [''self'', '' *args'', '' a'', '' b: T'']) of
        [] \<Rightarrow> Dynamic | s # _ \<Rightarrow> s)"
    by (rule conjunct1)
  with a show ?thesis by simp
qed

text \<open>
  The claim as it is written fails: the first token that is not skipped does not decide
  alone. The two lists below have the same first token that is not skipped, \<^verbatim>\<open>a\<close>,
  and get different styles from their second token.
\<close>

theorem detectParamStyle_first_token_counterexample:
  "find (\<lambda>t. \<not> skippedToken t) (map trim [''a'', ''b: T'']) = Some ''a'' \<and>
   find (\<lambda>t. \<not> skippedToken t) (map trim [''a'', ''int b'']) = Some ''a'' \<and>
   detectParamStyle [''a'', ''b: T''] = Colon \<and>
   detectParamStyle [''a'', ''int b''] = TypeBefore"
  by code_simp

section \<open>Properties of extractTypesFromParams\<close>

lemma self_token_empty:
  "isSelfToken p \<Longrightarrow> extractTypeFromSingleParam (trim p) style = []"
  by (auto simp: isSelfToken_def extractTypeFromSingleParam_def startsWith_def)

lemma self_token_no_signal:
  "isSelfToken p \<Longrightarrow> tokenSignal (trim p) = None"
  by (auto simp: isSelfToken_def tokenSignal_def skippedToken_def)

lemma detectParamStyle_without_self:
  "detectParamStyle (filter (\<lambda>p. \<not> isSelfToken p) paramTokens) = detectParamStyle paramTokens"
proof (induction paramTokens)
  case Nil
  show ?case by simp
next
  case (Cons p ps)
  show ?case
  proof (cases "isSelfToken p")
    case True
    then show ?thesis
      using Cons.IH
      by (simp del: detectParamStyle.simps add: detectParamStyle_Cons self_token_no_signal)
  next
    case False
    then show ?thesis
      using Cons.IH
      by (simp del: detectParamStyle.simps add: detectParamStyle_Cons split: option.split)
  qed
qed

lemma mapTypes_without_self:
  "mapTypes (filter (\<lambda>p. \<not> isSelfToken p) paramTokens) style = mapTypes paramTokens style"
  by (induction paramTokens) (simp_all add: mapTypes_def self_token_empty)

lemma length_two_filters:
  "(\<forall>x\<in>set xs. \<not> (P x \<and> Q x)) \<Longrightarrow> length (filter P xs) + length (filter Q xs) \<le> length xs"
  by (induction xs) auto

lemma length_two_filters_eq:
  "(\<forall>x\<in>set xs. P x \<noteq> Q x) \<Longrightarrow> length (filter P xs) + length (filter Q xs) = length xs"
  by (induction xs) auto

lemma length_mapTypes:
  "length (mapTypes paramTokens style) =
     length (filter (\<lambda>p. extractTypeFromSingleParam (trim p) style \<noteq> []) paramTokens)"
  by (induction paramTokens) (simp_all add: mapTypes_def)

text \<open>
  Claim C8, as the code has it. For every list of tokens and every style, a token that
  is exactly \<^verbatim>\<open>self\<close>, \<^verbatim>\<open>cls\<close> or \<^verbatim>\<open>this\<close> adds no element to the output: the
  result, the detected style included, is the same as for the list without these
  tokens. The list of types is shorter than the list of tokens by at least the number
  of these tokens, and by exactly that number when every other token gives a type that
  is not empty (an empty token, as between two commas, is dropped too). In particular
  \<^verbatim>\<open>self, a, b\<close> has the style \<open>Dynamic\<close> and gives \<^verbatim>\<open>(a, b)\<close>.
\<close>

theorem self_tokens_dropped:
  "typesOfTokens (filter (\<lambda>p. \<not> isSelfToken p) paramTokens) = typesOfTokens paramTokens \<and>
   mapTypes (filter (\<lambda>p. \<not> isSelfToken p) paramTokens) style = mapTypes paramTokens style \<and>
   length (mapTypes paramTokens style) + length (filter isSelfToken paramTokens)
     \<le> length paramTokens \<and>
   ((\<forall>p\<in>set paramTokens. \<not> isSelfToken p \<longrightarrow> extractTypeFromSingleParam (trim p) style \<noteq> [])
     \<longrightarrow> length (mapTypes paramTokens style) + length (filter isSelfToken paramTokens)
           = length paramTokens) \<and>
   detectParamStyle (splitParams ''self, a, b'') = Dynamic \<and>
   extractTypesFromParams ''self, a, b'' = ''(a, b)''"
proof (intro conjI impI)
  show "typesOfTokens (filter (\<lambda>p. \<not> isSelfToken p) paramTokens) = typesOfTokens paramTokens"
    by (simp add: typesOfTokens_def detectParamStyle_without_self mapTypes_without_self)
next
  show "mapTypes (filter (\<lambda>p. \<not> isSelfToken p) paramTokens) style = mapTypes paramTokens style"
    by (rule mapTypes_without_self)
next
  have "\<forall>p\<in>set paramTokens.
      \<not> (extractTypeFromSingleParam (trim p) style \<noteq> [] \<and> isSelfToken p)"
    using self_token_empty by blast
  from length_two_filters [OF this]
  show "length (mapTypes paramTokens style) + length (filter isSelfToken paramTokens)
     \<le> length paramTokens"
    by (simp add: length_mapTypes)
next
  assume "\<forall>p\<in>set paramTokens. \<not> isSelfToken p \<longrightarrow> extractTypeFromSingleParam (trim p) style \<noteq> []"
  then have "\<forall>p\<in>set paramTokens.
      (extractTypeFromSingleParam (trim p) style \<noteq> []) \<noteq> isSelfToken p"
    using self_token_empty by blast
  from length_two_filters_eq [OF this]
  show "length (mapTypes paramTokens style) + length (filter isSelfToken paramTokens)
     = length paramTokens"
    by (simp add: length_mapTypes)
next
  show "detectParamStyle (splitParams ''self, a, b'') = Dynamic"
    by code_simp
next
  show "extractTypesFromParams ''self, a, b'' = ''(a, b)''"
    by code_simp
qed

theorem self_tokens_dropped_witness:
  "isSelfToken ''self'' \<and>
   extractTypeFromSingleParam (trim '' a'') Dynamic \<noteq> [] \<and>
   extractTypeFromSingleParam (trim '' b'') Dynamic \<noteq> [] \<and>
   length (mapTypes [''self'', '' a'', '' b''] Dynamic) + length (filter isSelfToken [''self'', '' a'', '' b'']) = 3 \<and>
   typesOfTokens [''self'', '' a'', '' b''] = typesOfTokens ['' a'', '' b'']"
proof -
  have s: "isSelfToken ''self''" "\<not> isSelfToken '' a''" "\<not> isSelfToken '' b''"
    by code_simp+
  have e: "extractTypeFromSingleParam (trim '' a'') Dynamic \<noteq> []"
    "extractTypeFromSingleParam (trim '' b'') Dynamic \<noteq> []"
    by code_simp+
  have h: "\<forall>p\<in>set [''self'', '' a'', '' b''].
      \<not> isSelfToken p \<longrightarrow> extractTypeFromSingleParam (trim p) Dynamic \<noteq> []"
    using e s by simp
  note t = self_tokens_dropped [of "[''self'', '' a'', '' b'']" Dynamic]
  from t h have a: "length (mapTypes [''self'', '' a'', '' b''] Dynamic) +
      length (filter isSelfToken [''self'', '' a'', '' b'']) = length [''self'', '' a'', '' b'']"
    by blast
  from t have "typesOfTokens (filter (\<lambda>p. \<not> isSelfToken p) [''self'', '' a'', '' b''])
      = typesOfTokens [''self'', '' a'', '' b'']"
    by blast
  with s have b: "typesOfTokens [''self'', '' a'', '' b''] = typesOfTokens ['' a'', '' b'']"
    by simp
  from s e a b show ?thesis by simp
qed

text \<open>
  The count of the claim as it is written fails: \<^verbatim>\<open>a,,b\<close> has three tokens, none of
  them \<^verbatim>\<open>self\<close>, \<^verbatim>\<open>cls\<close> or \<^verbatim>\<open>this\<close>, and two types.
\<close>

theorem self_tokens_count_counterexample:
  "splitParams ''a,,b'' = [''a'', [], ''b''] \<and>
   filter isSelfToken (splitParams ''a,,b'') = [] \<and>
   mapTypes (splitParams ''a,,b'') (detectParamStyle (splitParams ''a,,b'')) = [''a'', ''b''] \<and>
   length (mapTypes (splitParams ''a,,b'') (detectParamStyle (splitParams ''a,,b'')))
     \<noteq> length (splitParams ''a,,b'') - length (filter isSelfToken (splitParams ''a,,b'')) \<and>
   extractTypesFromParams ''a,,b'' = ''(a, b)''"
  by code_simp


section \<open>Properties of graph generation\<close>




lemma node_id_create:
  "node_id (createNodeFromCallHierarchyItem env item) = generateNodeId env item"
  by (simp add: createNodeFromCallHierarchyItem_def Let_def)










text \<open>
  Claim C9. When the acquisition of the call hierarchy gives nothing for the cursor
  position (the server prepares no item, or an empty list of items, or throws), and a
  workspace is open, \<open>generateFromCodePosition\<close> fails with the error that the call
  hierarchy could not be obtained: it returns no document, so no node and no edge, and
  the state of the generator is what it was before the call.
\<close>

theorem generate_fails_without_hierarchy:
  assumes "hasWorkspace env"
    and "prepareCallHierarchy (lsp env) = None \<or> prepareCallHierarchy (lsp env) = Some []"
  shows "getCallHierarchy (lsp env) depth = None \<and>
         generateFromCodePosition env options st = (Inl UnableToGetCallHierarchy, st)"
proof -
  from assms(2) have "getCallHierarchy (lsp env) d = None" for d
    by (auto simp: getCallHierarchy_def)
  with assms(1) show ?thesis
    by (simp add: generateFromCodePosition_def Let_def)
qed

theorem generate_fails_without_hierarchy_witness:
  "hasWorkspace (sampleEnv (cycleLsp\<lparr>prepareCallHierarchy := Some []\<rparr>)) \<and>
   prepareCallHierarchy (lsp (sampleEnv (cycleLsp\<lparr>prepareCallHierarchy := Some []\<rparr>))) = Some [] \<and>
   generateFromCodePosition (sampleEnv (cycleLsp\<lparr>prepareCallHierarchy := Some []\<rparr>))
     \<lparr>opt_depth = None, opt_direction = None\<rparr>
     \<lparr>nodeMap = [], edges = [\<lparr>edge_from = ''x'', edge_to = ''y''\<rparr>], visitedNodes = [''x'']\<rparr>
   = (Inl UnableToGetCallHierarchy,
      \<lparr>nodeMap = [], edges = [\<lparr>edge_from = ''x'', edge_to = ''y''\<rparr>], visitedNodes = [''x'']\<rparr>)"
proof -
  let ?env = "sampleEnv (cycleLsp\<lparr>prepareCallHierarchy := Some []\<rparr>)"
  have a: "hasWorkspace ?env" by (simp add: sampleEnv_def)
  have b: "prepareCallHierarchy (lsp ?env) = Some []" by (simp add: sampleEnv_def)
  then have c: "prepareCallHierarchy (lsp ?env) = None \<or> prepareCallHierarchy (lsp ?env) = Some []"
    by simp
  from generate_fails_without_hierarchy [OF a c] a b show ?thesis by blast
qed




lemma cycle_incoming_b:
  assumes "twoCycle server a b"
  shows "getIncomingCalls server b d [getNodeKey a, getNodeKey b]
     = ([], [getNodeKey a, getNodeKey b])"
  using assms by (simp add: twoCycle_def)

lemma cycle_incoming_a:
  assumes "twoCycle server a b" and "0 \<le> d"
  shows "getIncomingCalls server a d [getNodeKey a] =
    ([CallHierarchyNode b [] []], [getNodeKey a, getNodeKey b])"
proof -
  from assms(1) have ne: "getNodeKey b \<noteq> getNodeKey a"
    and inc: "provideIncomingCalls server a = Some [b]"
    by (auto simp: twoCycle_def)
  have s: "setAdd (getNodeKey b) [getNodeKey a] = [getNodeKey a, getNodeKey b]"
    by (simp add: setAdd_def ne)
  have "getIncomingCalls server a d [getNodeKey a]
      = getIncomingCalls_loop server [b] d [getNodeKey a]"
    using assms(2) by (simp add: inc)
  also have "\<dots> = ([CallHierarchyNode b [] []], [getNodeKey a, getNodeKey b])"
    by (simp add: s cycle_incoming_b [OF assms(1)] ne del: getIncomingCalls.simps)
  finally show ?thesis .
qed

lemma cycle_outgoing_a:
  assumes "twoCycle server a b"
  shows "getOutgoingCalls server a d [getNodeKey a, getNodeKey b] =
    ([], [getNodeKey a, getNodeKey b])"
  using assms by (simp add: twoCycle_def)

lemma cycle_hierarchy:
  assumes "twoCycle server a b" and "0 < depth"
  shows "getCallHierarchy server depth = Some (CallHierarchyNode a [CallHierarchyNode b [] []] [])"
proof -
  from assms(2) have d: "0 \<le> depth - 1" by simp
  from assms(1) obtain rest where p: "prepareCallHierarchy server = Some (a # rest)"
    by (auto simp: twoCycle_def)
  show ?thesis
    using assms(2)
    by (simp add: getCallHierarchy_def p Let_def setAdd_def
        cycle_incoming_a [OF assms(1) d] cycle_outgoing_a [OF assms(1)]
        del: getIncomingCalls.simps getOutgoingCalls.simps)
qed

lemma cycle_convert:
  assumes "generateNodeId env a \<noteq> generateNodeId env b"
  shows "convertToGraphData env (CallHierarchyNode a [CallHierarchyNode b [] []] [])
      direction emptyState
    = (if direction = Callees
       then ([createNodeFromCallHierarchyItem env a],
             \<lparr>nodeMap = [(generateNodeId env a, createNodeFromCallHierarchyItem env a)],
              edges = [], visitedNodes = []\<rparr>)
       else ([createNodeFromCallHierarchyItem env a, createNodeFromCallHierarchyItem env b],
             \<lparr>nodeMap = [(generateNodeId env a, createNodeFromCallHierarchyItem env a),
                         (generateNodeId env b, createNodeFromCallHierarchyItem env b)],
              edges = [\<lparr>edge_from = generateNodeId env b, edge_to = generateNodeId env a\<rparr>],
              visitedNodes = [generateNodeId env b]\<rparr>))"
  using assms
  by (cases direction)
    (simp_all add: convertToGraphData_def emptyState_def Let_def node_id_create setAdd_def)

text \<open>
  Claim C6, as the code has it. For a cycle (\<open>a\<close> calls \<open>b\<close> and \<open>b\<close> calls \<open>a\<close>, the
  cursor on \<open>a\<close>), any depth above zero and any direction, the acquisition returns a
  tree and the expansion returns a graph: the pipeline ends, with at most two nodes and
  at most two edges. For the directions \<open>Both\<close> and \<open>Callers\<close> the graph has the two
  nodes of \<open>a\<close> and \<open>b\<close> and exactly one edge, from \<open>b\<close> to \<open>a\<close>: the acquisition has
  \<open>b\<close> as a caller of \<open>a\<close>, skips \<open>a\<close> under \<open>b\<close>, and skips \<open>b\<close> as a callee of \<open>a\<close>,
  its key being visited. The ids of the two items are taken to differ, as digests of
  different strings do.
\<close>

theorem cycle_graph_one_edge:
  assumes "twoCycle (lsp env) a b" and "0 < depth"
    and "generateNodeId env a \<noteq> generateNodeId env b"
  shows "\<exists>hierarchy nodes st'.
     getCallHierarchy (lsp env) depth = Some hierarchy \<and>
     convertToGraphData env hierarchy direction emptyState = (nodes, st') \<and>
     length nodes \<le> 2 \<and> length (edges st') \<le> 2 \<and>
     (direction = Both \<or> direction = Callers \<longrightarrow>
        map node_id nodes = [generateNodeId env a, generateNodeId env b] \<and>
        edges st' = [\<lparr>edge_from = generateNodeId env b, edge_to = generateNodeId env a\<rparr>])"
proof -
  have h: "getCallHierarchy (lsp env) depth
      = Some (CallHierarchyNode a [CallHierarchyNode b [] []] [])"
    by (rule cycle_hierarchy [OF assms(1,2)])
  let ?r = "convertToGraphData env (CallHierarchyNode a [CallHierarchyNode b [] []] [])
      direction emptyState"
  note r = cycle_convert [OF assms(3), of direction]
  have 1: "length (fst ?r) \<le> 2" by (simp add: r)
  have 2: "length (edges (snd ?r)) \<le> 2" by (simp add: r)
  have 3: "direction = Both \<or> direction = Callers \<longrightarrow>
      map node_id (fst ?r) = [generateNodeId env a, generateNodeId env b] \<and>
      edges (snd ?r) = [\<lparr>edge_from = generateNodeId env b, edge_to = generateNodeId env a\<rparr>]"
    by (auto simp: r node_id_create)
  have 4: "?r = (fst ?r, snd ?r)" by (rule prod.collapse [symmetric])
  show ?thesis
    apply (rule exI [of _ "CallHierarchyNode a [CallHierarchyNode b [] []] []"])
    apply (rule exI [of _ "fst ?r"])
    apply (rule exI [of _ "snd ?r"])
    apply (intro conjI)
        apply (rule h)
       apply (rule 4)
      apply (rule 1)
     apply (rule 2)
    apply (rule 3)
    done
qed

theorem cycle_graph_one_edge_witness:
  "twoCycle (lsp (sampleEnv cycleLsp)) itemA itemB \<and>
   (\<exists>hierarchy nodes st'.
     getCallHierarchy (lsp (sampleEnv cycleLsp)) 2 = Some hierarchy \<and>
     convertToGraphData (sampleEnv cycleLsp) hierarchy Both emptyState = (nodes, st') \<and>
     length nodes \<le> 2 \<and> length (edges st') \<le> 2 \<and>
     map node_id nodes = [''9662c6055a629e4d'', ''a82c4b26c6418f90''] \<and>
     edges st' = [\<lparr>edge_from = ''a82c4b26c6418f90'', edge_to = ''9662c6055a629e4d''\<rparr>])"
proof -
  have a: "generateNodeId (sampleEnv cycleLsp) itemA = ''9662c6055a629e4d''"
    and b: "generateNodeId (sampleEnv cycleLsp) itemB = ''a82c4b26c6418f90''"
    by code_simp+
  have d: "generateNodeId (sampleEnv cycleLsp) itemA \<noteq> generateNodeId (sampleEnv cycleLsp) itemB"
    by (simp add: a b)
  have k: "getNodeKey itemA \<noteq> getNodeKey itemB"
    by code_simp
  have c: "twoCycle (lsp (sampleEnv cycleLsp)) itemA itemB"
    using k by (simp add: twoCycle_def sampleEnv_def cycleLsp_def itemA_def itemB_def sampleItem_def)
  have z: "(0::int) < 2" by simp
  from cycle_graph_one_edge [OF c z d, of Both] c show ?thesis
    by (simp add: a b)
qed

text \<open>
  The claim as it is written fails: at the default depth the cycle gives two nodes and
  one edge for the direction \<open>Both\<close>, not two edges, and for the direction \<open>Callees\<close>
  it gives the root alone.
\<close>

theorem cycle_two_edges_counterexample:
  "getCallHierarchy cycleLsp 2
     = Some (CallHierarchyNode itemA [CallHierarchyNode itemB [] []] []) \<and>
   map node_id (fst (convertToGraphData (sampleEnv cycleLsp)
       (CallHierarchyNode itemA [CallHierarchyNode itemB [] []] []) Both emptyState))
     = [''9662c6055a629e4d'', ''a82c4b26c6418f90''] \<and>
   edges (snd (convertToGraphData (sampleEnv cycleLsp)
       (CallHierarchyNode itemA [CallHierarchyNode itemB [] []] []) Both emptyState))
     = [\<lparr>edge_from = ''a82c4b26c6418f90'', edge_to = ''9662c6055a629e4d''\<rparr>] \<and>
   length (edges (snd (convertToGraphData (sampleEnv cycleLsp)
       (CallHierarchyNode itemA [CallHierarchyNode itemB [] []] []) Both emptyState))) \<noteq> 2 \<and>
   map node_id (fst (convertToGraphData (sampleEnv cycleLsp)
       (CallHierarchyNode itemA [CallHierarchyNode itemB [] []] []) Callees emptyState))
     = [''9662c6055a629e4d''] \<and>
   edges (snd (convertToGraphData (sampleEnv cycleLsp)
       (CallHierarchyNode itemA [CallHierarchyNode itemB [] []] []) Callees emptyState)) = []"
  by code_simp


section \<open>Properties of the method library\<close>

lemma find_sameLocation_None:
  "find (sameLocation method) methods = None \<Longrightarrow> (mi_uri method, mi_line method) \<notin> set (locations methods)"
  by (auto simp: find_None_iff sameLocation_def locations_def)

lemma add_keeps_distinct:
  "distinct (locations s) \<Longrightarrow> distinct (locations (snd (add s method newId now)))"
  by (auto simp: add_def Let_def locations_def find_None_iff sameLocation_def
      split: option.splits)

lemma distinct_take_drop:
  "distinct ys \<Longrightarrow> distinct (take n ys @ drop (Suc n) ys)"
proof (induction ys arbitrary: n)
  case Nil
  then show ?case by simp
next
  case (Cons y ys)
  show ?case
  proof (cases n)
    case 0
    with Cons.prems show ?thesis by simp
  next
    case (Suc k)
    from Cons.prems have "y \<notin> set ys" and "distinct ys" by simp_all
    moreover have "set (take k ys) \<subseteq> set ys" and "set (drop (Suc k) ys) \<subseteq> set ys"
      by (rule set_take_subset, rule set_drop_subset)
    ultimately show ?thesis using Suc Cons.IH [of k] by auto
  qed
qed

lemma remove_keeps_distinct:
  "distinct (locations s) \<Longrightarrow> distinct (locations (remove s ident))"
proof -
  have "distinct (take n (locations s) @ drop (Suc n) (locations s))" if "distinct (locations s)" for n
    using that by (rule distinct_take_drop)
  then show "distinct (locations s) \<Longrightarrow> distinct (locations (remove s ident))"
    by (simp add: remove_def locations_def Let_def take_map drop_map)
qed

lemma reachable_distinct: "reachable s \<Longrightarrow> distinct (locations s)"
proof (induction rule: reachable.induct)
  case reach_init
  show ?case by (simp add: locations_def)
next
  case (reach_add s m newId now)
  from reach_add.IH show ?case by (rule add_keeps_distinct)
next
  case (reach_remove s ident)
  from reach_remove.IH show ?case by (rule remove_keeps_distinct)
next
  case (reach_clear s)
  show ?case by (simp add: clear_def locations_def)
qed

lemma find_unique:
  "distinct (map f xs) \<Longrightarrow> e \<in> set xs \<Longrightarrow> find (\<lambda>x. f x = f e) xs = Some e"
proof (induction xs)
  case Nil
  then show ?case by simp
next
  case (Cons x xs)
  show ?case
  proof (cases "x = e")
    case True
    then show ?thesis by simp
  next
    case False
    with Cons.prems have e: "e \<in> set xs" by simp
    from Cons.prems e have "f x \<noteq> f e" by (auto simp: image_iff)
    moreover from Cons.IH Cons.prems e have "find (\<lambda>x. f x = f e) xs = Some e" by simp
    ultimately show ?thesis by simp
  qed
qed

text \<open>
  Claim C10. Every state of the method library reachable from the empty library through
  \<open>add\<close>, \<open>remove\<close> and \<open>clear\<close> holds no two entries with the same \<open>(uri, line)\<close>
  pair; and \<open>add\<close> with a method whose \<open>uri\<close> and \<open>line\<close> equal those of an entry \<open>e\<close>
  of the library returns \<open>e\<close> and leaves the stored list as it was.
\<close>

theorem library_no_duplicate_location:
  "reachable s \<Longrightarrow>
     distinct (locations s) \<and>
     (\<forall>method e newId now.
        e \<in> set s \<and> mi_uri e = mi_uri method \<and> mi_line e = mi_line method
        \<longrightarrow> add s method newId now = (e, s))"
proof -
  assume r: "reachable s"
  then have d: "distinct (map (\<lambda>m. (mi_uri m, mi_line m)) s)"
    using reachable_distinct by (simp add: locations_def)
  have "add s m newId now = (e, s)"
    if e: "e \<in> set s" and u: "mi_uri e = mi_uri m" and l: "mi_line e = mi_line m"
    for m :: MethodInput and e newId now
  proof -
    have eq: "sameLocation m = (\<lambda>x. (mi_uri x, mi_line x) = (mi_uri e, mi_line e))"
      by (rule ext) (simp add: sameLocation_def u l)
    from find_unique [OF d e] have "find (sameLocation m) s = Some e"
      by (simp only: eq)
    then show ?thesis by (simp add: add_def)
  qed
  with r show ?thesis using reachable_distinct by blast
qed

theorem library_no_duplicate_location_witness:
  "reachable
     (snd (add [] \<lparr>mi_name = ''add'', mi_uri = ''src/calc.ts'', mi_containerName = Some ''Calculator'',
                   mi_line = 22, mi_signature = None\<rparr> ''method-1'' 1000)) \<and>
   distinct (locations
     (snd (add [] \<lparr>mi_name = ''add'', mi_uri = ''src/calc.ts'', mi_containerName = Some ''Calculator'',
                   mi_line = 22, mi_signature = None\<rparr> ''method-1'' 1000))) \<and>
   add (snd (add [] \<lparr>mi_name = ''add'', mi_uri = ''src/calc.ts'', mi_containerName = Some ''Calculator'',
                     mi_line = 22, mi_signature = None\<rparr> ''method-1'' 1000))
       \<lparr>mi_name = ''plus'', mi_uri = ''src/calc.ts'', mi_containerName = None,
        mi_line = 22, mi_signature = None\<rparr> ''method-2'' 2000
     = (\<lparr>mi_name = ''add'', mi_uri = ''src/calc.ts'', mi_containerName = Some ''Calculator'',
         mi_line = 22, mi_signature = None, mi_id = ''method-1'', mi_addedAt = 1000\<rparr>,
        [\<lparr>mi_name = ''add'', mi_uri = ''src/calc.ts'', mi_containerName = Some ''Calculator'',
          mi_line = 22, mi_signature = None, mi_id = ''method-1'', mi_addedAt = 1000\<rparr>])"
proof -
  let ?m1 = "\<lparr>mi_name = ''add'', mi_uri = ''src/calc.ts'', mi_containerName = Some ''Calculator'',
              mi_line = 22, mi_signature = None\<rparr>"
  let ?m2 = "\<lparr>mi_name = ''plus'', mi_uri = ''src/calc.ts'', mi_containerName = None,
              mi_line = 22, mi_signature = None\<rparr>"
  let ?e = "\<lparr>mi_name = ''add'', mi_uri = ''src/calc.ts'', mi_containerName = Some ''Calculator'',
             mi_line = 22, mi_signature = None, mi_id = ''method-1'', mi_addedAt = 1000\<rparr>"
  let ?s = "snd (add [] ?m1 ''method-1'' 1000)"
  have s: "?s = [?e]" by (simp add: add_def Let_def)
  have r: "reachable ?s" by (rule reach_add [OF reach_init])
  note t = library_no_duplicate_location [OF r]
  from t have d: "distinct (locations ?s)" by (rule conjunct1)
  have "?e \<in> set ?s \<and> mi_uri ?e = mi_uri ?m2 \<and> mi_line ?e = mi_line ?m2"
    by (simp add: s)
  with t have "add ?s ?m2 ''method-2'' 2000 = (?e, ?s)" by blast
  then have "add ?s ?m2 ''method-2'' 2000 = (?e, [?e])" by (simp only: s)
  with r d show ?thesis by blast
qed


end
